theory Spec2Isabelle
  imports Main
begin

section \<open>Text\<close>

text \<open>
  The script \<^verbatim>\<open>bin/build_llms_txt.py\<close> works on Python \<^verbatim>\<open>str\<close> values. A text is
  modelled as a \<^typ>\<open>string\<close> whose characters are the code points 0 to 255, so the
  character classes below are Python's classes restricted to that range.
\<close>

definition code :: "char \<Rightarrow> nat" where
  "code c = of_char c"

definition is_space :: "char \<Rightarrow> bool" where
  \<comment> \<open>\<^verbatim>\<open>str.isspace\<close>, which is also the class \<^verbatim>\<open>\s\<close> of \<^verbatim>\<open>re\<close> on \<^verbatim>\<open>str\<close> patterns\<close>
  "is_space c = (let n = code c in
     (9 \<le> n \<and> n \<le> 13) \<or> (28 \<le> n \<and> n \<le> 32) \<or> n = 133 \<or> n = 160)"

definition is_word :: "char \<Rightarrow> bool" where
  \<comment> \<open>the class \<^verbatim>\<open>\w\<close>: alphanumeric characters and the underscore\<close>
  "is_word c = (let n = code c in
     (48 \<le> n \<and> n \<le> 57) \<or> (65 \<le> n \<and> n \<le> 90) \<or> n = 95 \<or> (97 \<le> n \<and> n \<le> 122) \<or>
     n = 170 \<or> n = 178 \<or> n = 179 \<or> n = 181 \<or> (185 \<le> n \<and> n \<le> 186) \<or>
     (188 \<le> n \<and> n \<le> 190) \<or> (192 \<le> n \<and> n \<le> 214) \<or> (216 \<le> n \<and> n \<le> 246) \<or>
     248 \<le> n)"

definition lower_char :: "char \<Rightarrow> char" where
  "lower_char c = (let n = code c in
     if (65 \<le> n \<and> n \<le> 90) \<or> (192 \<le> n \<and> n \<le> 222 \<and> n \<noteq> 215) then char_of (n + 32) else c)"

definition lower :: "string \<Rightarrow> string" where
  \<comment> \<open>\<^verbatim>\<open>str.lower\<close>\<close>
  "lower s = map lower_char s"

definition strip :: "string \<Rightarrow> string" where
  \<comment> \<open>\<^verbatim>\<open>str.strip()\<close>: whitespace removed at both ends\<close>
  "strip s = rev (dropWhile is_space (rev (dropWhile is_space s)))"

fun startswith :: "string \<Rightarrow> string \<Rightarrow> bool" where
  \<comment> \<open>\<^verbatim>\<open>s.startswith(p)\<close>, with the text first\<close>
  "startswith s [] = True"
| "startswith [] (p # ps) = False"
| "startswith (x # xs) (p # ps) = (x = p \<and> startswith xs ps)"

fun split_nl :: "string \<Rightarrow> string list" where
  \<comment> \<open>\<^verbatim>\<open>s.split('\n')\<close>: one more piece than there are newlines\<close>
  "split_nl [] = [[]]"
| "split_nl (c # cs) =
     (if c = CHR ''\<newline>'' then [] # split_nl cs
      else (case split_nl cs of [] \<Rightarrow> [[c]] | l # ls \<Rightarrow> (c # l) # ls))"

fun join_nl :: "string list \<Rightarrow> string" where
  \<comment> \<open>\<^verbatim>\<open>'\n'.join(lines)\<close>\<close>
  "join_nl [] = []"
| "join_nl [l] = l"
| "join_nl (l # ls) = l @ CHR ''\<newline>'' # join_nl ls"


section \<open>Regular expressions\<close>

text \<open>
  The patterns of the script use literals, character classes, greedy and lazy repetition of
  a single class, capture groups, alternatives of literal strings, one lookahead and a
  top-level alternation. A pattern is a list of alternatives, each a list of tokens, and the
  matcher backtracks in the order of Python's \<^verbatim>\<open>re\<close>: a greedy repetition takes as much
  as it can and gives back one character at a time, a lazy one takes as little as it can,
  alternatives are tried from left to right.
\<close>

datatype cls =
    Ch char            \<comment> \<open>a literal character\<close>
  | Dot                \<comment> \<open>\<^verbatim>\<open>.\<close>: any character but the newline\<close>
  | Space              \<comment> \<open>\<^verbatim>\<open>\s\<close>\<close>
  | Word               \<comment> \<open>\<^verbatim>\<open>\w\<close>\<close>
  | NotCh char         \<comment> \<open>\<^verbatim>\<open>[^c]\<close>\<close>
  | WordOr "char list" \<comment> \<open>\<^verbatim>\<open>[\w...]\<close>: a word character or one of the listed ones\<close>
  | Beyond             \<comment> \<open>a literal code point above 255, which no character of a text equals\<close>

datatype tok =
    One cls              \<comment> \<open>exactly one character of the class\<close>
  | Star cls             \<comment> \<open>\<^verbatim>\<open>c*\<close>\<close>
  | Plus cls             \<comment> \<open>\<^verbatim>\<open>c+\<close>\<close>
  | Lazy cls             \<comment> \<open>\<^verbatim>\<open>c*?\<close>\<close>
  | Open nat             \<comment> \<open>start of capture group n\<close>
  | Close nat            \<comment> \<open>end of capture group n\<close>
  | Lits "string list"   \<comment> \<open>\<^verbatim>\<open>(?:l1|l2|...)\<close>, also a single literal string\<close>
  | AheadOrEnd "string list" \<comment> \<open>\<^verbatim>\<open>(?=l1|l2|...|\Z)\<close>\<close>

type_synonym pattern = "tok list list"

type_synonym spans = "(nat \<times> nat \<times> nat) list"

definition ch_eq :: "bool \<Rightarrow> char \<Rightarrow> char \<Rightarrow> bool" where
  \<comment> \<open>a literal against a character; the flag is \<^verbatim>\<open>re.IGNORECASE\<close>\<close>
  "ch_eq ic p x = (if ic then lower_char p = lower_char x else p = x)"

fun cls_ok :: "bool \<Rightarrow> cls \<Rightarrow> char \<Rightarrow> bool" where
  "cls_ok ic (Ch p) x = ch_eq ic p x"
| "cls_ok ic Dot x = (x \<noteq> CHR ''\<newline>'')"
| "cls_ok ic Space x = is_space x"
| "cls_ok ic Word x = is_word x"
| "cls_ok ic (NotCh p) x = (\<not> ch_eq ic p x)"
| "cls_ok ic (WordOr ps) x = (is_word x \<or> list_ex (\<lambda>p. ch_eq ic p x) ps)"
| "cls_ok ic Beyond x = False"

fun lit_prefix :: "bool \<Rightarrow> string \<Rightarrow> string \<Rightarrow> bool" where
  "lit_prefix ic [] s = True"
| "lit_prefix ic (p # ps) [] = False"
| "lit_prefix ic (p # ps) (x # xs) = (ch_eq ic p x \<and> lit_prefix ic ps xs)"

fun tok_size :: "tok \<Rightarrow> nat" where
  "tok_size (Lits ls) = Suc (length ls)"
| "tok_size t = 1"

text \<open>
  \<open>m ic ts s pos os cs\<close> matches the tokens \<open>ts\<close> against the text \<open>s\<close>, which starts
  \<open>pos\<close> characters after the start of the match; \<open>os\<close> holds the start of every group
  opened so far and \<open>cs\<close> the span of every group closed so far. The result is the length of
  the match with the spans of its groups, or \<open>None\<close> when the tokens do not match here.
\<close>

function m :: "bool \<Rightarrow> tok list \<Rightarrow> string \<Rightarrow> nat \<Rightarrow> (nat \<times> nat) list \<Rightarrow> spans \<Rightarrow> (nat \<times> spans) option" where
  "m ic [] s pos os cs = Some (pos, cs)"
| "m ic (One c # ts) [] pos os cs = None"
| "m ic (One c # ts) (x # xs) pos os cs =
     (if cls_ok ic c x then m ic ts xs (Suc pos) os cs else None)"
| "m ic (Star c # ts) [] pos os cs = m ic ts [] pos os cs"
| "m ic (Star c # ts) (x # xs) pos os cs =
     (if cls_ok ic c x
      then (case m ic (Star c # ts) xs (Suc pos) os cs of
              Some r \<Rightarrow> Some r
            | None \<Rightarrow> m ic ts (x # xs) pos os cs)
      else m ic ts (x # xs) pos os cs)"
| "m ic (Plus c # ts) [] pos os cs = None"
| "m ic (Plus c # ts) (x # xs) pos os cs =
     (if cls_ok ic c x then m ic (Star c # ts) xs (Suc pos) os cs else None)"
| "m ic (Lazy c # ts) [] pos os cs = m ic ts [] pos os cs"
| "m ic (Lazy c # ts) (x # xs) pos os cs =
     (case m ic ts (x # xs) pos os cs of
        Some r \<Rightarrow> Some r
      | None \<Rightarrow> (if cls_ok ic c x then m ic (Lazy c # ts) xs (Suc pos) os cs else None))"
| "m ic (Open n # ts) s pos os cs = m ic ts s pos ((n, pos) # os) cs"
| "m ic (Close n # ts) s pos os cs =
     (case map_of os n of
        None \<Rightarrow> None
      | Some b \<Rightarrow> m ic ts s pos os ((n, b, pos) # cs))"
| "m ic (Lits [] # ts) s pos os cs = None"
| "m ic (Lits (l # ls) # ts) s pos os cs =
     (if lit_prefix ic l s
      then (case m ic ts (drop (length l) s) (pos + length l) os cs of
              Some r \<Rightarrow> Some r
            | None \<Rightarrow> m ic (Lits ls # ts) s pos os cs)
      else m ic (Lits ls # ts) s pos os cs)"
| "m ic (AheadOrEnd ls # ts) s pos os cs =
     (if s = [] \<or> list_ex (\<lambda>l. lit_prefix ic l s) ls then m ic ts s pos os cs else None)"
  by pat_completeness auto
termination
  by (relation "measure (\<lambda>(ic, ts, s, pos, os, cs). sum_list (map tok_size ts) + length s)") auto

fun match_at :: "bool \<Rightarrow> pattern \<Rightarrow> string \<Rightarrow> (nat \<times> spans) option" where
  \<comment> \<open>the match that starts at the head of the text, the alternatives tried in order\<close>
  "match_at ic [] s = None"
| "match_at ic (a # as) s =
     (case m ic a s 0 [] [] of Some r \<Rightarrow> Some r | None \<Rightarrow> match_at ic as s)"

definition group :: "string \<Rightarrow> spans \<Rightarrow> nat \<Rightarrow> string" where
  \<comment> \<open>the text of group n, empty when the group took no part in the match\<close>
  "group s cs n = (case map_of cs n of None \<Rightarrow> [] | Some (b, e) \<Rightarrow> take (e - b) (drop b s))"

fun is_open :: "tok \<Rightarrow> bool" where
  "is_open (Open n) = True"
| "is_open t = False"

definition ngroups :: "pattern \<Rightarrow> nat" where
  "ngroups p = length (filter is_open (concat p))"

text \<open>
  \<^verbatim>\<open>re.finditer\<close>: the text is scanned from left to right, a match is taken where the
  pattern matches and the scan goes on after it. Every pattern of the script needs at
  least one character, so no match is empty; after an empty match the scan would move
  one character on.
\<close>

function scan :: "bool \<Rightarrow> pattern \<Rightarrow> string \<Rightarrow> (string \<times> spans) list" where
  "scan ic p [] = (case match_at ic p [] of None \<Rightarrow> [] | Some (n, cs) \<Rightarrow> [([], cs)])"
| "scan ic p (x # xs) =
     (case match_at ic p (x # xs) of
        None \<Rightarrow> scan ic p xs
      | Some (n, cs) \<Rightarrow> (take n (x # xs), cs) # scan ic p (drop (n - 1) xs))"
  by pat_completeness auto
termination
  by (relation "measure (\<lambda>(ic, p, s). length s)") auto

datatype found = Str string | Tup "string list"

definition found_of :: "pattern \<Rightarrow> string \<times> spans \<Rightarrow> found" where
  \<comment> \<open>what \<^verbatim>\<open>re.findall\<close> returns for one match: the whole match without groups, the
      group with one, the tuple of all groups with more\<close>
  "found_of p r = (case r of (w, cs) \<Rightarrow>
     if ngroups p = 0 then Str w
     else if ngroups p = 1 then Str (group w cs 1)
     else Tup (map (group w cs) [1 ..< Suc (ngroups p)]))"

definition re_findall :: "bool \<Rightarrow> pattern \<Rightarrow> string \<Rightarrow> found list" where
  "re_findall ic p s = map (found_of p) (scan ic p s)"

datatype piece = Text string | Ref nat

fun expand :: "piece list \<Rightarrow> string \<Rightarrow> spans \<Rightarrow> string" where
  \<comment> \<open>the replacement template of \<^verbatim>\<open>re.sub\<close>, \<open>Ref n\<close> standing for \<^verbatim>\<open>\n\<close>\<close>
  "expand [] w cs = []"
| "expand (Text t # ps) w cs = t @ expand ps w cs"
| "expand (Ref n # ps) w cs = group w cs n @ expand ps w cs"

function re_sub :: "bool \<Rightarrow> pattern \<Rightarrow> piece list \<Rightarrow> string \<Rightarrow> string" where
  "re_sub ic p rp [] = (case match_at ic p [] of None \<Rightarrow> [] | Some (n, cs) \<Rightarrow> expand rp [] cs)"
| "re_sub ic p rp (x # xs) =
     (case match_at ic p (x # xs) of
        None \<Rightarrow> x # re_sub ic p rp xs
      | Some (n, cs) \<Rightarrow>
          expand rp (take n (x # xs)) cs @ (if n = 0 then [x] else []) @
          re_sub ic p rp (drop (n - 1) xs))"
  by pat_completeness auto
termination
  by (relation "measure (\<lambda>(ic, p, rp, s). length s)") auto


section \<open>The Markdown Cleaner\<close>

definition blank_lines_re :: pattern where
  \<comment> \<open>\<^verbatim>\<open>\n\s*\n\s*\n\<close>\<close>
  "blank_lines_re = [[One (Ch CHR ''\<newline>''), Star Space, One (Ch CHR ''\<newline>''), Star Space,
     One (Ch CHR ''\<newline>'')]]"

definition link_re :: pattern where
  \<comment> \<open>\<^verbatim>\<open>\[([^\]]+)\]\([^)]+\)\<close>\<close>
  "link_re = [[One (Ch CHR ''[''), Open 1, Plus (NotCh CHR '']''), Close 1, One (Ch CHR '']''),
     One (Ch CHR ''(''), Plus (NotCh CHR '')''), One (Ch CHR '')'')]]"

definition image_re :: pattern where
  \<comment> \<open>\<^verbatim>\<open>!\[([^\]]*)\]\([^)]+\)\<close>\<close>
  "image_re = [[One (Ch CHR ''!''), One (Ch CHR ''[''), Open 1, Star (NotCh CHR '']''), Close 1,
     One (Ch CHR '']''), One (Ch CHR ''(''), Plus (NotCh CHR '')''), One (Ch CHR '')'')]]"

definition tag_re :: pattern where
  \<comment> \<open>\<^verbatim>\<open><[^>]+>\<close>\<close>
  "tag_re = [[One (Ch CHR ''<''), Plus (NotCh CHR ''>''), One (Ch CHR ''>'')]]"

definition clean_markdown_content :: "string \<Rightarrow> string" where
  "clean_markdown_content content =
     (let content = re_sub False blank_lines_re [Text ''\<newline>\<newline>''] content;
          content = re_sub False link_re [Ref 1] content;
          content = re_sub False image_re [] content;
          content = re_sub False tag_re [] content
      in strip content)"


section \<open>The Key-Information Extractor\<close>

record key_info =
  core_concepts :: "string list"
  endpoints :: "string list"
  parameters :: "string list"
  response_fields :: "string list"
  streaming_events :: "string list"

definition lookahead :: tok where
  \<comment> \<open>\<^verbatim>\<open>(?=\n\*\*|\n##|\Z)\<close>\<close>
  "lookahead = AheadOrEnd [''\<newline>**'', ''\<newline>##'']"

definition bold_re :: "string \<Rightarrow> pattern" where
  \<comment> \<open>\<^verbatim>\<open>(\*\*TERM\*\*[^\.]*?)(?=\n\*\*|\n##|\Z)\<close>\<close>
  "bold_re w = [[Open 1, Lits [''**'' @ w @ ''**''], Lazy (NotCh CHR ''.''), Close 1, lookahead]]"

definition arrow_re :: pattern where
  \<comment> \<open>\<^verbatim>\<open>(\*\*Items -> Items\*\*[^\.]*?)(?=\n\*\*|\n##|\Z)\<close>, where the arrow stands for the
      single code point U+2192 of the source\<close>
  "arrow_re = [[Open 1, Lits [''**Items ''], One Beyond, Lits ['' Items**''], Lazy (NotCh CHR ''.''),
     Close 1, lookahead]]"

definition loose_re :: "string list \<Rightarrow> pattern" where
  \<comment> \<open>\<^verbatim>\<open>A.*?B\<close> and \<^verbatim>\<open>A.*?B.*?C\<close>\<close>
  "loose_re ws = [case ws of [] \<Rightarrow> [] | w # r \<Rightarrow> Lits [w] # concat (map (\<lambda>v. [Lazy Dot, Lits [v]]) r)]"

definition concepts_patterns :: "pattern list" where
  "concepts_patterns =
    [bold_re ''Items'',
     bold_re ''Agentic Loop'',
     bold_re ''Semantic Streaming'',
     bold_re ''State Machines'',
     bold_re ''Multi-provider'',
     arrow_re,
     loose_re [''Items'', ''atomic'', ''unit''],
     loose_re [''Agentic'', ''loop''],
     loose_re [''Semantic'', ''streaming''],
     loose_re [''State'', ''machines''],
     loose_re [''Multi'', ''provider'']]"

definition spaces_re :: pattern where
  \<comment> \<open>\<^verbatim>\<open>\s+\<close>\<close>
  "spaces_re = [[Plus Space]]"

definition add_concept :: "string list \<Rightarrow> found \<Rightarrow> string list" where
  \<comment> \<open>the body of the loop over the matches of one concept pattern\<close>
  "add_concept acc f =
     (let match = (case f of Tup t \<Rightarrow> (case t of [] \<Rightarrow> [] | g # _ \<Rightarrow> g) | Str s \<Rightarrow> s)
      in if strip match \<noteq> []
         then (let clean_match = re_sub False spaces_re [Text '' ''] (strip match)
               in if length clean_match > 10 \<and> clean_match \<notin> set acc
                  then acc @ [clean_match] else acc)
         else acc)"

definition endpoint_re :: pattern where
  \<comment> \<open>\<^verbatim>\<open>(POST|GET|PUT|DELETE)\s+(/[\w\/\-]+)\<close>\<close>
  "endpoint_re = [[Open 1, Lits [''POST'', ''GET'', ''PUT'', ''DELETE''], Close 1, Plus Space,
     Open 2, One (Ch CHR ''/''), Plus (WordOr ''/-''), Close 2]]"

definition add_endpoint :: "string list \<Rightarrow> found \<Rightarrow> string list" where
  \<comment> \<open>\<^verbatim>\<open>for method, path in endpoint_matches\<close>: the pattern has two groups, so every
      match is a pair\<close>
  "add_endpoint acc f =
     (case f of
        Tup [method, path] \<Rightarrow>
          (let endpoint = method @ '' '' @ path
           in if endpoint \<notin> set acc then acc @ [endpoint] else acc)
      | _ \<Rightarrow> acc)"

definition backticked :: "tok list" where
  \<comment> \<open>the prefix \<^verbatim>\<open>`(\w+)`\<close> of the parameter and field patterns\<close>
  "backticked = [One (Ch CHR 0x60), Open 1, Plus Word, Close 1, One (Ch CHR 0x60)]"

definition typed_word :: "string \<Rightarrow> nat \<Rightarrow> tok list" where
  \<comment> \<open>\<^verbatim>\<open>(\w+)\s+\(TYPE\)\<close> as group n\<close>
  "typed_word ty n = [Open n, Plus Word, Close n, Plus Space, Lits [''('' @ ty @ '')'']]"

definition param_re_1 :: pattern where
  \<comment> \<open>\<^verbatim>\<open>`(\w+)`\s+\([^)]*(?:string|number|boolean|integer)\<close>\<close>
  "param_re_1 = [backticked @ [Plus Space, One (Ch CHR ''(''), Star (NotCh CHR '')''),
     Lits [''string'', ''number'', ''boolean'', ''integer'']]]"

definition param_re_2 :: pattern where
  \<comment> \<open>\<^verbatim>\<open>`(\w+)`\s+.*?(?:parameter|field|argument)\<close>\<close>
  "param_re_2 = [backticked @ [Plus Space, Lazy Dot, Lits [''parameter'', ''field'', ''argument'']]]"

definition param_re_3 :: pattern where
  \<comment> \<open>\<^verbatim>\<open>`(\w+)`.*?(?:input|request|model|tool|stream|temperature|top_p|truncation|service_tier)\<close>\<close>
  "param_re_3 = [backticked @ [Lazy Dot, Lits [''input'', ''request'', ''model'', ''tool'', ''stream'',
     ''temperature'', ''top_p'', ''truncation'', ''service_tier'']]]"

definition param_re_4 :: pattern where
  \<comment> \<open>\<^verbatim>\<open>(\w+)\s+\(string\)|(\w+)\s+\(number\)|(\w+)\s+\(boolean\)|(\w+)\s+\(integer\)\<close>\<close>
  "param_re_4 = [typed_word ''string'' 1, typed_word ''number'' 2, typed_word ''boolean'' 3,
     typed_word ''integer'' 4]"

definition param_patterns :: "pattern list" where
  "param_patterns = [param_re_1, param_re_2, param_re_3, param_re_4]"

definition stop_words :: "string list" where
  "stop_words = [''the'', ''and'', ''for'', ''with'', ''to'', ''of'', ''in'', ''on'', ''at'', ''by'',
     ''is'', ''are'', ''was'', ''were'', ''be'', ''been'', ''being'', ''have'', ''has'', ''had'',
     ''do'', ''does'', ''did'', ''will'', ''would'', ''could'', ''should'', ''type'', ''id'',
     ''name'', ''text'', ''url'', ''data'', ''model'', ''input'', ''tools'', ''tool'', ''stream'',
     ''temperature'', ''top_p'']"

definition add_param :: "string list \<Rightarrow> found \<Rightarrow> string list" where
  \<comment> \<open>the body of the loop over the matches of one parameter pattern\<close>
  "add_param acc f =
     (let match = (case f of
                     Tup t \<Rightarrow> (case filter (\<lambda>g. g \<noteq> []) t of [] \<Rightarrow> [] | g # _ \<Rightarrow> g)
                   | Str s \<Rightarrow> s)
      in if match \<noteq> [] \<and> length match > 2 \<and> lower match \<notin> set stop_words
         then (if match \<notin> set acc then acc @ [match] else acc)
         else acc)"

definition field_re_1 :: pattern where
  \<comment> \<open>\<^verbatim>\<open>`(\w+)`\s+.*?(?:response|output|status|model|usage|error)\<close>\<close>
  "field_re_1 = [backticked @ [Plus Space, Lazy Dot,
     Lits [''response'', ''output'', ''status'', ''model'', ''usage'', ''error'']]]"

definition field_re_2 :: pattern where
  \<comment> \<open>\<^verbatim>\<open>`(\w+)`\s+.*?(?:field|property|attribute)\<close>\<close>
  "field_re_2 = [backticked @ [Plus Space, Lazy Dot, Lits [''field'', ''property'', ''attribute'']]]"

definition field_re_3 :: pattern where
  \<comment> \<open>\<^verbatim>\<open>(\w+)\s+.*?(?:response|output|status|model|usage|error)\<close>\<close>
  "field_re_3 = [[Open 1, Plus Word, Close 1, Plus Space, Lazy Dot,
     Lits [''response'', ''output'', ''status'', ''model'', ''usage'', ''error'']]]"

definition field_patterns :: "pattern list" where
  "field_patterns = [field_re_1, field_re_2, field_re_3]"

definition add_field :: "string list \<Rightarrow> found \<Rightarrow> string list" where
  \<comment> \<open>every field pattern has one group, so every match is a string\<close>
  "add_field acc f =
     (case f of
        Str match \<Rightarrow>
          (if match \<noteq> [] \<and> length match > 2
           then (if match \<notin> set acc then acc @ [match] else acc)
           else acc)
      | Tup t \<Rightarrow> acc)"

definition event_pattern :: pattern where
  \<comment> \<open>\<^verbatim>\<open>`(response\.[\w_]+)`\<close>\<close>
  "event_pattern = [[One (Ch CHR 0x60), Open 1, Lits [''response.''], Plus (WordOr ''_''), Close 1,
     One (Ch CHR 0x60)]]"

definition add_event :: "string list \<Rightarrow> found \<Rightarrow> string list" where
  \<comment> \<open>the event pattern has one group, so every match is a string\<close>
  "add_event acc f =
     (case f of
        Str event \<Rightarrow> (if event \<notin> set acc then acc @ [event] else acc)
      | Tup t \<Rightarrow> acc)"

definition harvest :: "(string list \<Rightarrow> found \<Rightarrow> string list) \<Rightarrow> bool \<Rightarrow> pattern list \<Rightarrow> string \<Rightarrow> string list" where
  \<comment> \<open>\<^verbatim>\<open>for pattern in patterns: for match in re.findall(pattern, content, flags): ...\<close>;
      the patterns are constants that compile, so \<^verbatim>\<open>re.error\<close> is never raised\<close>
  "harvest add ic ps content = foldl (\<lambda>acc p. foldl add acc (re_findall ic p content)) [] ps"

definition extract_key_info_from_content :: "string \<Rightarrow> key_info" where
  "extract_key_info_from_content content =
     \<lparr> core_concepts = take 5 (harvest add_concept True concepts_patterns content),
       endpoints = take 10 (harvest add_endpoint False [endpoint_re] content),
       parameters = take 20 (harvest add_param True param_patterns content),
       response_fields = take 20 (harvest add_field True field_patterns content),
       streaming_events = take 15 (harvest add_event False [event_pattern] content) \<rparr>"


section \<open>The Validator\<close>

text \<open>
  The file system is a map from paths to the text of each file. A file opened for reading in
  text mode is read with universal newlines: a carriage return, alone or before a line
  feed, arrives as one line feed. A line feed is written as it is (\<^verbatim>\<open>os.linesep\<close> of a
  POSIX system). Console output is left out of the model, the diagnostic of the Fetcher
  apart.
\<close>

datatype exn =
    RequestException string   \<comment> \<open>\<^verbatim>\<open>requests.RequestException\<close> and its subclasses\<close>
  | FileNotFoundError string
  | ValueError string
  | OtherException string     \<comment> \<open>any other exception\<close>

type_synonym files = "string \<rightharpoonup> string"

fun universal_newlines :: "string \<Rightarrow> string" where
  "universal_newlines [] = []"
| "universal_newlines [c] = [if c = CHR 0x0D then CHR ''\<newline>'' else c]"
| "universal_newlines (c # d # cs) =
     (if c = CHR 0x0D
      then (if d = CHR ''\<newline>'' then CHR ''\<newline>'' # universal_newlines cs
            else CHR ''\<newline>'' # universal_newlines (d # cs))
      else c # universal_newlines (d # cs))"

definition read_text :: "files \<Rightarrow> string \<Rightarrow> exn + string" where
  \<comment> \<open>\<^verbatim>\<open>open(path, 'r', encoding='utf-8').read()\<close>\<close>
  "read_text fs path =
     (case fs path of None \<Rightarrow> Inl (FileNotFoundError path) | Some t \<Rightarrow> Inr (universal_newlines t))"

definition write_text :: "files \<Rightarrow> string \<Rightarrow> string \<Rightarrow> files" where
  \<comment> \<open>\<^verbatim>\<open>open(path, 'w', encoding='utf-8').write(t)\<close>\<close>
  "write_text fs path t = fs(path \<mapsto> t)"

record validation_results =
  h1_found :: bool
  blockquote_found :: bool
  h2_count :: nat
  links_found :: bool
  valid :: bool

definition has_char :: "char \<Rightarrow> string \<Rightarrow> bool" where
  "has_char c l = (c \<in> set l)"

definition check_content :: "string \<Rightarrow> validation_results" where
  \<comment> \<open>the checks of \<^verbatim>\<open>validate_llms_txt\<close> on the text read from the file\<close>
  "check_content content =
     (let lines = split_nl content;
          h1 = list_ex (\<lambda>line. startswith line ''# '') lines;
          bq = list_ex (\<lambda>line. startswith line ''> '') lines;
          h2 = length (filter (\<lambda>line. startswith line ''## '') lines);
          links = list_ex (\<lambda>line. has_char CHR ''['' line \<and> has_char CHR '']'' line \<and>
                    has_char CHR ''('' line \<and> has_char CHR '')'' line) lines
      in \<lparr> h1_found = h1, blockquote_found = bq, h2_count = h2, links_found = links,
           valid = (h1 \<and> bq \<and> h2 \<ge> 1) \<rparr>)"

definition validate_llms_txt :: "files \<Rightarrow> string \<Rightarrow> exn + (bool \<times> validation_results)" where
  "validate_llms_txt fs file_path =
     (case read_text fs file_path of
        Inl e \<Rightarrow> Inl e
      | Inr content \<Rightarrow> (let r = check_content content in Inr (valid r, r)))"


section \<open>The Fetcher\<close>

text \<open>
  The network is a function from a URL to what \<^verbatim>\<open>requests.get\<close> does with it: it raises
  an exception or returns a response. \<^verbatim>\<open>raise_for_status\<close> is the library's: it raises
  an \<^verbatim>\<open>HTTPError\<close>, a \<^verbatim>\<open>RequestException\<close>, for a status from 400 to 599.
\<close>

record response =
  status_code :: nat
  response_text :: string   \<comment> \<open>\<^verbatim>\<open>response.text\<close>\<close>
  http_error :: string   \<comment> \<open>the message of the \<^verbatim>\<open>HTTPError\<close> for this response\<close>

datatype http_result = Raises exn | Returns response

definition raise_for_status :: "response \<Rightarrow> exn option" where
  "raise_for_status r =
     (if 400 \<le> status_code r \<and> status_code r < 600 then Some (RequestException (http_error r))
      else None)"

definition fetch_handler :: "string \<Rightarrow> exn \<Rightarrow> (exn + string) \<times> string list" where
  \<comment> \<open>\<^verbatim>\<open>except requests.RequestException as e\<close>: any other exception propagates\<close>
  "fetch_handler url e =
     (case e of
        RequestException msg \<Rightarrow> (Inr [], [''Error fetching '' @ url @ '': '' @ msg])
      | _ \<Rightarrow> (Inl e, []))"

definition fetch_web_content :: "(string \<Rightarrow> http_result) \<Rightarrow> string \<Rightarrow> (exn + string) \<times> string list" where
  \<comment> \<open>the value returned or the exception raised, and the lines printed\<close>
  "fetch_web_content http url =
     (case http url of
        Raises e \<Rightarrow> fetch_handler url e
      | Returns r \<Rightarrow>
          (case raise_for_status r of
             Some e \<Rightarrow> fetch_handler url e
           | None \<Rightarrow> (Inr (response_text r), [])))"


section \<open>The Text Extractor\<close>

text \<open>
  A parsed page is a tree as \<^verbatim>\<open>BeautifulSoup\<close> builds it: an element has a tag name,
  the tokens of its \<^verbatim>\<open>class\<close> attribute when it has one, and children; the other nodes
  are the strings that \<^verbatim>\<open>get_text\<close> collects. The parser is a parameter. The tree
  operations are the library's: \<^verbatim>\<open>find_all\<close> walks the descendants in document order
  and offers a function given for \<^verbatim>\<open>class\<close> every token of the attribute and then the
  tokens joined by spaces, or \<^verbatim>\<open>None\<close> when the attribute is absent.
\<close>

datatype node = Element string "string list option" "node list" | TextNode string

fun descendants :: "node \<Rightarrow> node list" where
  "descendants (Element t c ks) = concat (map (\<lambda>k. k # descendants k) ks)"
| "descendants (TextNode s) = []"

fun texts :: "node \<Rightarrow> string list" where
  "texts (Element t c ks) = concat (map texts ks)"
| "texts (TextNode s) = [s]"

fun has_tag :: "string list \<Rightarrow> node \<Rightarrow> bool" where
  "has_tag names (Element t c ks) = (t \<in> set names)"
| "has_tag names (TextNode s) = False"

fun decompose_all :: "string list \<Rightarrow> node \<Rightarrow> node" where
  \<comment> \<open>\<^verbatim>\<open>for e in soup(names): e.decompose()\<close>\<close>
  "decompose_all names (Element t c ks) =
     Element t c (map (decompose_all names) (filter (\<lambda>k. \<not> has_tag names k) ks))"
| "decompose_all names (TextNode s) = TextNode s"

fun contains :: "string \<Rightarrow> string \<Rightarrow> bool" where
  \<comment> \<open>\<^verbatim>\<open>p in s\<close>\<close>
  "contains p [] = (p = [])"
| "contains p (x # xs) = (startswith (x # xs) p \<or> contains p xs)"

definition class_hint :: "string option \<Rightarrow> bool" where
  \<comment> \<open>\<^verbatim>\<open>lambda x: x and ('content' in x or 'main' in x or 'doc' in x or 'page' in x)\<close>\<close>
  "class_hint x =
     (case x of
        None \<Rightarrow> False
      | Some v \<Rightarrow> v \<noteq> [] \<and> (contains ''content'' v \<or> contains ''main'' v \<or> contains ''doc'' v \<or>
                   contains ''page'' v))"

fun join_sp :: "string list \<Rightarrow> string" where
  \<comment> \<open>\<^verbatim>\<open>' '.join(tokens)\<close>\<close>
  "join_sp [] = []"
| "join_sp [l] = l"
| "join_sp (l # ls) = l @ CHR '' '' # join_sp ls"

fun class_matches :: "(string option \<Rightarrow> bool) \<Rightarrow> node \<Rightarrow> bool" where
  "class_matches f (Element t None ks) = f None"
| "class_matches f (Element t (Some ts) ks) = (list_ex (\<lambda>v. f (Some v)) ts \<or> f (Some (join_sp ts)))"
| "class_matches f (TextNode s) = False"

definition find_all :: "string list \<Rightarrow> (string option \<Rightarrow> bool) \<Rightarrow> node \<Rightarrow> node list" where
  \<comment> \<open>\<^verbatim>\<open>soup.find_all(names, attrs={'class': f})\<close>\<close>
  "find_all names f soup = filter (\<lambda>n. has_tag names n \<and> class_matches f n) (descendants soup)"

definition body :: "node \<Rightarrow> node option" where
  \<comment> \<open>\<^verbatim>\<open>soup.body\<close>: the first \<^verbatim>\<open>body\<close> element, if any\<close>
  "body soup = List.find (has_tag [''body'']) (descendants soup)"

definition content_areas :: "node \<Rightarrow> node list" where
  \<comment> \<open>the elements whose text is extracted, once the scripts and styles are removed\<close>
  "content_areas soup =
     (let areas = find_all [''main'', ''article'', ''div''] class_hint soup
      in if areas = [] then (case body soup of Some b \<Rightarrow> [b] | None \<Rightarrow> [soup]) else areas)"

definition is_linebreak :: "char \<Rightarrow> bool" where
  \<comment> \<open>the line boundaries of \<^verbatim>\<open>str.splitlines\<close>\<close>
  "is_linebreak c = (let n = code c in (10 \<le> n \<and> n \<le> 13) \<or> (28 \<le> n \<and> n \<le> 30) \<or> n = 133)"

fun splitlines_acc :: "string \<Rightarrow> string \<Rightarrow> string list" where
  "splitlines_acc [] cur = (if cur = [] then [] else [rev cur])"
| "splitlines_acc [c] cur = (if is_linebreak c then [rev cur] else [rev (c # cur)])"
| "splitlines_acc (c # d # cs) cur =
     (if c = CHR 0x0D \<and> d = CHR ''\<newline>'' then rev cur # splitlines_acc cs []
      else if is_linebreak c then rev cur # splitlines_acc (d # cs) []
      else splitlines_acc (d # cs) (c # cur))"

definition splitlines :: "string \<Rightarrow> string list" where
  \<comment> \<open>\<^verbatim>\<open>s.splitlines()\<close>\<close>
  "splitlines s = splitlines_acc s []"

fun split_2sp_acc :: "string \<Rightarrow> string \<Rightarrow> string list" where
  "split_2sp_acc [] cur = [rev cur]"
| "split_2sp_acc [c] cur = [rev (c # cur)]"
| "split_2sp_acc (c # d # cs) cur =
     (if c = CHR '' '' \<and> d = CHR '' '' then rev cur # split_2sp_acc cs []
      else split_2sp_acc (d # cs) (c # cur))"

definition split_2sp :: "string \<Rightarrow> string list" where
  \<comment> \<open>\<^verbatim>\<open>s.split("  ")\<close>\<close>
  "split_2sp s = split_2sp_acc s []"

definition extract_mdx_like_content_from_html :: "(string \<Rightarrow> node) \<Rightarrow> string \<Rightarrow> string" where
  "extract_mdx_like_content_from_html parse html_content =
     (let soup = decompose_all [''script'', ''style''] (parse html_content);
          extracted_content =
            concat (map (\<lambda>area. join_nl (texts area) @ ''\<newline>'') (content_areas soup));
          lines = map strip (splitlines extracted_content);
          chunks = concat (map (\<lambda>line. map strip (split_2sp line)) lines)
      in join_nl (filter (\<lambda>chunk. chunk \<noteq> []) chunks))"


section \<open>The Document Assembler\<close>

definition title_lines :: "string list" where
  \<comment> \<open>the title and the summary\<close>
  "title_lines =
    [''# Open Responses'',
     [],
     ''> Open Responses is an open, vendor-neutral specification for large language model APIs that defines a shared schema, consistent streaming/events, and extensible tooling to enable interoperable LLM workflows across different providers. It standardizes LLM interfaces while maintaining flexibility for provider-specific extensions and advanced agentic capabilities.'',
     []]"

definition resources_section :: "string list" where
  \<comment> \<open>the Resources section\<close>
  "resources_section =
    [''## Resources'',
     [],
     ''- [API Reference](https://www.openresponses.org/reference): Detailed API documentation with all endpoints, parameters, and response structures'',
     ''- [Specification](https://www.openresponses.org/specification): Complete technical specification with detailed concepts and implementation guidelines'',
     ''- [Compliance](https://www.openresponses.org/compliance): Acceptance tests and validation procedures'',
     ''- [Governance](https://www.openresponses.org/governance): Technical charter and governance structure'',
     ''- [Changelog](https://www.openresponses.org/changelog): Version history and updates'',
     []]"

definition documentation_section :: "string list" where
  \<comment> \<open>the Documentation section\<close>
  "documentation_section =
    [''## Documentation'',
     [],
     ''- [Overview](https://www.openresponses.org/): Introduction to Open Responses'',
     ''- [Specification](https://www.openresponses.org/specification): Complete technical specification'',
     ''- [API Reference](https://www.openresponses.org/reference): Detailed API documentation'',
     ''- [Compliance](https://www.openresponses.org/compliance): Acceptance tests and validation'',
     ''- [Governance](https://www.openresponses.org/governance): Technical charter and governance structure'',
     ''- [Changelog](https://www.openresponses.org/changelog): Version history and updates'',
     []]"

definition examples_section :: "string list" where
  \<comment> \<open>the Examples section\<close>
  "examples_section =
    [''## Examples'',
     [],
     ''- [cURL Snippets](https://www.openresponses.org/curl_snippets/curl_snippets.yaml): YAML file with cURL examples for various API calls'',
     ''- [OpenAPI Specification](https://www.openresponses.org/openapi/openapi.json): Complete OpenAPI specification in JSON format'',
     []]"

definition bullet :: "string \<Rightarrow> string" where
  \<comment> \<open>\<^verbatim>\<open>f"- {concept}"\<close>\<close>
  "bullet x = ''- '' @ x"

definition code_bullet :: "string \<Rightarrow> string" where
  \<comment> \<open>\<^verbatim>\<open>f"- `{x}`"\<close>\<close>
  "code_bullet x = ''- `'' @ x @ ''`''"

definition concepts_section :: "key_info \<Rightarrow> string list" where
  "concepts_section ki =
     (if core_concepts ki \<noteq> []
      then [''## Core Concepts'', []] @ map bullet (core_concepts ki) @ [[]]
      else [])"

definition api_section :: "key_info \<Rightarrow> string list" where
  "api_section ki =
     (if endpoints ki \<noteq> [] \<or> parameters ki \<noteq> []
      then [''## API'', []] @
           (if endpoints ki \<noteq> []
            then [''### Endpoints''] @ map code_bullet (endpoints ki) @ [[]]
            else []) @
           (if parameters ki \<noteq> []
            then [''### Key Parameters''] @ map code_bullet (parameters ki) @ [[]]
            else [])
      else [])"

definition events_section :: "key_info \<Rightarrow> string list" where
  "events_section ki =
     (if streaming_events ki \<noteq> []
      then [''## Streaming Events'', []] @ map code_bullet (streaming_events ki) @ [[]]
      else [])"

definition static_sections :: "string list" where
  "static_sections = resources_section @ documentation_section @ examples_section"

definition llms_content :: "key_info option \<Rightarrow> string list" where
  \<comment> \<open>the lines of the document; the argument is \<open>None\<close> when the fetched page is empty,
      and the record extracted from it otherwise\<close>
  "llms_content info =
     title_lines @
     (case info of
        None \<Rightarrow> []
      | Some ki \<Rightarrow> concepts_section ki @ api_section ki @ events_section ki) @
     static_sections"

definition specification_url :: string where
  "specification_url = ''https://www.openresponses.org/specification''"

definition generate_llms_txt_from_docs ::
    "(string \<Rightarrow> http_result) \<Rightarrow> (string \<Rightarrow> node) \<Rightarrow> files \<Rightarrow> string \<Rightarrow> string \<Rightarrow> (exn + bool) \<times> files" where
  \<comment> \<open>the value returned or the exception raised, and the files afterwards\<close>
  "generate_llms_txt_from_docs http parse fs docs_dir output_path =
     (case fst (fetch_web_content http specification_url) of
        Inl e \<Rightarrow> (Inl e, fs)
      | Inr spec_html \<Rightarrow>
          (let info =
                 (if spec_html \<noteq> []
                  then Some (extract_key_info_from_content
                         (clean_markdown_content
                            (extract_mdx_like_content_from_html parse spec_html)))
                  else None);
               fs' = write_text fs output_path (join_nl (llms_content info))
           in case validate_llms_txt fs' output_path of
                Inl e \<Rightarrow> (Inl e, fs')
              | Inr (is_valid, validation_results) \<Rightarrow>
                  if is_valid then (Inr True, fs')
                  else (Inl (ValueError
                    ''Generated llms.txt file does not meet llmstxt.org specification requirements''),
                    fs')))"


section \<open>Notions of the specification\<close>

definition has_match :: "pattern \<Rightarrow> string \<Rightarrow> bool" where
  \<comment> \<open>the pattern matches somewhere in the text (\<^verbatim>\<open>re.search\<close> finds a match)\<close>
  "has_match p s = (scan False p s \<noteq> [])"

abbreviation (input) LF :: char where
  "LF \<equiv> CHR ''\<newline>''"

abbreviation (input) CR :: char where
  "CR \<equiv> CHR 0x0D"

definition plain :: "string \<Rightarrow> bool" where
  \<comment> \<open>a line without a line feed or a carriage return\<close>
  "plain l = (LF \<notin> set l \<and> CR \<notin> set l)"

definition first_seen :: "'a list \<Rightarrow> 'a list" where
  \<comment> \<open>the elements of a list in the order in which each is first seen\<close>
  "first_seen xs = rev (remdups (rev xs))"

definition gather :: "(found \<Rightarrow> string option) \<Rightarrow> bool \<Rightarrow> pattern list \<Rightarrow> string \<Rightarrow> string list" where
  \<comment> \<open>the candidates that the patterns discover in a text, in the order of discovery\<close>
  "gather sel ic ps content = List.map_filter sel (concat (map (\<lambda>p. re_findall ic p content) ps))"

definition concept_of :: "found \<Rightarrow> string option" where
  \<comment> \<open>the concept that a match contributes, if any\<close>
  "concept_of f =
     (let match = (case f of Tup t \<Rightarrow> (case t of [] \<Rightarrow> [] | g # _ \<Rightarrow> g) | Str s \<Rightarrow> s);
          clean_match = re_sub False spaces_re [Text '' ''] (strip match)
      in if strip match \<noteq> [] \<and> length clean_match > 10 then Some clean_match else None)"

definition endpoint_of :: "found \<Rightarrow> string option" where
  \<comment> \<open>the endpoint that a match contributes, if any\<close>
  "endpoint_of f = (case f of Tup [method, path] \<Rightarrow> Some (method @ '' '' @ path) | _ \<Rightarrow> None)"

definition param_of :: "found \<Rightarrow> string option" where
  \<comment> \<open>the parameter that a match contributes, if any\<close>
  "param_of f =
     (let match = (case f of
                     Tup t \<Rightarrow> (case filter (\<lambda>g. g \<noteq> []) t of [] \<Rightarrow> [] | g # _ \<Rightarrow> g)
                   | Str s \<Rightarrow> s)
      in if length match > 2 \<and> lower match \<notin> set stop_words then Some match else None)"

definition field_of :: "found \<Rightarrow> string option" where
  \<comment> \<open>the response field that a match contributes, if any\<close>
  "field_of f = (case f of Str match \<Rightarrow> if length match > 2 then Some match else None | Tup t \<Rightarrow> None)"

definition event_of :: "found \<Rightarrow> string option" where
  \<comment> \<open>the streaming event that a match contributes, if any\<close>
  "event_of f = (case f of Str event \<Rightarrow> Some event | Tup t \<Rightarrow> None)"

definition add_new :: "'a list \<Rightarrow> 'a \<Rightarrow> 'a list" where
  \<comment> \<open>a list with one more element, unless it is there already\<close>
  "add_new acc x = (if x \<in> set acc then acc else acc @ [x])"

definition events_text :: "(string \<times> string) list \<Rightarrow> string \<Rightarrow> string" where
  \<comment> \<open>a text of backtick-quoted tokens \<^verbatim>\<open>response.w\<close>: each pair gives the text before a
      token and the \<open>w\<close> of the token, and a last text follows\<close>
  "events_text sws end_text =
     concat (map (\<lambda>p. fst p @ ''`response.'' @ snd p @ ''`'') sws) @ end_text"

definition event_names :: "(string \<times> string) list \<Rightarrow> string list" where
  \<comment> \<open>the tokens of such a text\<close>
  "event_names sws = map (\<lambda>p. ''response.'' @ snd p) sws"

definition event_words :: "(string \<times> string) list \<Rightarrow> bool" where
  \<comment> \<open>no backtick between the tokens, and every \<open>w\<close> is one or more word characters\<close>
  "event_words sws =
     list_all (\<lambda>p. CHR 0x60 \<notin> set (fst p) \<and> snd p \<noteq> [] \<and> list_all is_word (snd p)) sws"

fun class_attr :: "node \<Rightarrow> string option" where
  \<comment> \<open>the class attribute of an element as one string, its tokens joined by spaces\<close>
  "class_attr (Element t c ks) = map_option join_sp c"
| "class_attr (TextNode s) = None"

definition hinted :: "node \<Rightarrow> bool" where
  \<comment> \<open>an element named main, article or div whose class attribute contains one of the four hints\<close>
  "hinted n =
     (has_tag [''main'', ''article'', ''div''] n \<and>
      (case class_attr n of
         None \<Rightarrow> False
       | Some v \<Rightarrow> contains ''content'' v \<or> contains ''main'' v \<or> contains ''doc'' v \<or>
                  contains ''page'' v))"

fun is_request_exception :: "exn \<Rightarrow> bool" where
  \<comment> \<open>the exceptions that \<^verbatim>\<open>except requests.RequestException\<close> catches\<close>
  "is_request_exception (RequestException msg) = True"
| "is_request_exception e = False"

definition failing_library :: "string \<Rightarrow> http_result" where
  \<comment> \<open>a network on which \<^verbatim>\<open>requests.get\<close> raises an exception that is not a
      \<^verbatim>\<open>RequestException\<close>\<close>
  "failing_library url = Raises (OtherException ''boom'')"

definition multiple_choices :: "string \<Rightarrow> http_result" where
  \<comment> \<open>a server that answers 300 Multiple Choices, with a body and nowhere to redirect to\<close>
  "multiple_choices url =
     Returns \<lparr>status_code = 300, response_text = ''<p>Multiple Choices</p>'', http_error = []\<rparr>"


section \<open>Evaluation\<close>

subsection \<open>The classes of the ASCII characters\<close>

lemma lower_char_ascii:
  "lower_char (CHR 0x0A) = CHR 0x0A"
  "lower_char (CHR 0x20) = CHR 0x20"
  "lower_char (CHR 0x21) = CHR 0x21"
  "lower_char (CHR 0x22) = CHR 0x22"
  "lower_char (CHR 0x23) = CHR 0x23"
  "lower_char (CHR 0x24) = CHR 0x24"
  "lower_char (CHR 0x25) = CHR 0x25"
  "lower_char (CHR 0x26) = CHR 0x26"
  "lower_char (CHR 0x27) = CHR 0x27"
  "lower_char (CHR 0x28) = CHR 0x28"
  "lower_char (CHR 0x29) = CHR 0x29"
  "lower_char (CHR 0x2A) = CHR 0x2A"
  "lower_char (CHR 0x2B) = CHR 0x2B"
  "lower_char (CHR 0x2C) = CHR 0x2C"
  "lower_char (CHR 0x2D) = CHR 0x2D"
  "lower_char (CHR 0x2E) = CHR 0x2E"
  "lower_char (CHR 0x2F) = CHR 0x2F"
  "lower_char (CHR 0x30) = CHR 0x30"
  "lower_char (CHR 0x31) = CHR 0x31"
  "lower_char (CHR 0x32) = CHR 0x32"
  "lower_char (CHR 0x33) = CHR 0x33"
  "lower_char (CHR 0x34) = CHR 0x34"
  "lower_char (CHR 0x35) = CHR 0x35"
  "lower_char (CHR 0x36) = CHR 0x36"
  "lower_char (CHR 0x37) = CHR 0x37"
  "lower_char (CHR 0x38) = CHR 0x38"
  "lower_char (CHR 0x39) = CHR 0x39"
  "lower_char (CHR 0x3A) = CHR 0x3A"
  "lower_char (CHR 0x3B) = CHR 0x3B"
  "lower_char (CHR 0x3C) = CHR 0x3C"
  "lower_char (CHR 0x3D) = CHR 0x3D"
  "lower_char (CHR 0x3E) = CHR 0x3E"
  "lower_char (CHR 0x3F) = CHR 0x3F"
  "lower_char (CHR 0x40) = CHR 0x40"
  "lower_char (CHR 0x41) = CHR 0x61"
  "lower_char (CHR 0x42) = CHR 0x62"
  "lower_char (CHR 0x43) = CHR 0x63"
  "lower_char (CHR 0x44) = CHR 0x64"
  "lower_char (CHR 0x45) = CHR 0x65"
  "lower_char (CHR 0x46) = CHR 0x66"
  "lower_char (CHR 0x47) = CHR 0x67"
  "lower_char (CHR 0x48) = CHR 0x68"
  "lower_char (CHR 0x49) = CHR 0x69"
  "lower_char (CHR 0x4A) = CHR 0x6A"
  "lower_char (CHR 0x4B) = CHR 0x6B"
  "lower_char (CHR 0x4C) = CHR 0x6C"
  "lower_char (CHR 0x4D) = CHR 0x6D"
  "lower_char (CHR 0x4E) = CHR 0x6E"
  "lower_char (CHR 0x4F) = CHR 0x6F"
  "lower_char (CHR 0x50) = CHR 0x70"
  "lower_char (CHR 0x51) = CHR 0x71"
  "lower_char (CHR 0x52) = CHR 0x72"
  "lower_char (CHR 0x53) = CHR 0x73"
  "lower_char (CHR 0x54) = CHR 0x74"
  "lower_char (CHR 0x55) = CHR 0x75"
  "lower_char (CHR 0x56) = CHR 0x76"
  "lower_char (CHR 0x57) = CHR 0x77"
  "lower_char (CHR 0x58) = CHR 0x78"
  "lower_char (CHR 0x59) = CHR 0x79"
  "lower_char (CHR 0x5A) = CHR 0x7A"
  "lower_char (CHR 0x5B) = CHR 0x5B"
  "lower_char (CHR 0x5C) = CHR 0x5C"
  "lower_char (CHR 0x5D) = CHR 0x5D"
  "lower_char (CHR 0x5E) = CHR 0x5E"
  "lower_char (CHR 0x5F) = CHR 0x5F"
  "lower_char (CHR 0x60) = CHR 0x60"
  "lower_char (CHR 0x61) = CHR 0x61"
  "lower_char (CHR 0x62) = CHR 0x62"
  "lower_char (CHR 0x63) = CHR 0x63"
  "lower_char (CHR 0x64) = CHR 0x64"
  "lower_char (CHR 0x65) = CHR 0x65"
  "lower_char (CHR 0x66) = CHR 0x66"
  "lower_char (CHR 0x67) = CHR 0x67"
  "lower_char (CHR 0x68) = CHR 0x68"
  "lower_char (CHR 0x69) = CHR 0x69"
  "lower_char (CHR 0x6A) = CHR 0x6A"
  "lower_char (CHR 0x6B) = CHR 0x6B"
  "lower_char (CHR 0x6C) = CHR 0x6C"
  "lower_char (CHR 0x6D) = CHR 0x6D"
  "lower_char (CHR 0x6E) = CHR 0x6E"
  "lower_char (CHR 0x6F) = CHR 0x6F"
  "lower_char (CHR 0x70) = CHR 0x70"
  "lower_char (CHR 0x71) = CHR 0x71"
  "lower_char (CHR 0x72) = CHR 0x72"
  "lower_char (CHR 0x73) = CHR 0x73"
  "lower_char (CHR 0x74) = CHR 0x74"
  "lower_char (CHR 0x75) = CHR 0x75"
  "lower_char (CHR 0x76) = CHR 0x76"
  "lower_char (CHR 0x77) = CHR 0x77"
  "lower_char (CHR 0x78) = CHR 0x78"
  "lower_char (CHR 0x79) = CHR 0x79"
  "lower_char (CHR 0x7A) = CHR 0x7A"
  "lower_char (CHR 0x7B) = CHR 0x7B"
  "lower_char (CHR 0x7C) = CHR 0x7C"
  "lower_char (CHR 0x7D) = CHR 0x7D"
  "lower_char (CHR 0x7E) = CHR 0x7E"
  by code_simp+

lemma is_word_ascii:
  "is_word (CHR 0x0A) = False"
  "is_word (CHR 0x20) = False"
  "is_word (CHR 0x21) = False"
  "is_word (CHR 0x22) = False"
  "is_word (CHR 0x23) = False"
  "is_word (CHR 0x24) = False"
  "is_word (CHR 0x25) = False"
  "is_word (CHR 0x26) = False"
  "is_word (CHR 0x27) = False"
  "is_word (CHR 0x28) = False"
  "is_word (CHR 0x29) = False"
  "is_word (CHR 0x2A) = False"
  "is_word (CHR 0x2B) = False"
  "is_word (CHR 0x2C) = False"
  "is_word (CHR 0x2D) = False"
  "is_word (CHR 0x2E) = False"
  "is_word (CHR 0x2F) = False"
  "is_word (CHR 0x30) = True"
  "is_word (CHR 0x31) = True"
  "is_word (CHR 0x32) = True"
  "is_word (CHR 0x33) = True"
  "is_word (CHR 0x34) = True"
  "is_word (CHR 0x35) = True"
  "is_word (CHR 0x36) = True"
  "is_word (CHR 0x37) = True"
  "is_word (CHR 0x38) = True"
  "is_word (CHR 0x39) = True"
  "is_word (CHR 0x3A) = False"
  "is_word (CHR 0x3B) = False"
  "is_word (CHR 0x3C) = False"
  "is_word (CHR 0x3D) = False"
  "is_word (CHR 0x3E) = False"
  "is_word (CHR 0x3F) = False"
  "is_word (CHR 0x40) = False"
  "is_word (CHR 0x41) = True"
  "is_word (CHR 0x42) = True"
  "is_word (CHR 0x43) = True"
  "is_word (CHR 0x44) = True"
  "is_word (CHR 0x45) = True"
  "is_word (CHR 0x46) = True"
  "is_word (CHR 0x47) = True"
  "is_word (CHR 0x48) = True"
  "is_word (CHR 0x49) = True"
  "is_word (CHR 0x4A) = True"
  "is_word (CHR 0x4B) = True"
  "is_word (CHR 0x4C) = True"
  "is_word (CHR 0x4D) = True"
  "is_word (CHR 0x4E) = True"
  "is_word (CHR 0x4F) = True"
  "is_word (CHR 0x50) = True"
  "is_word (CHR 0x51) = True"
  "is_word (CHR 0x52) = True"
  "is_word (CHR 0x53) = True"
  "is_word (CHR 0x54) = True"
  "is_word (CHR 0x55) = True"
  "is_word (CHR 0x56) = True"
  "is_word (CHR 0x57) = True"
  "is_word (CHR 0x58) = True"
  "is_word (CHR 0x59) = True"
  "is_word (CHR 0x5A) = True"
  "is_word (CHR 0x5B) = False"
  "is_word (CHR 0x5C) = False"
  "is_word (CHR 0x5D) = False"
  "is_word (CHR 0x5E) = False"
  "is_word (CHR 0x5F) = True"
  "is_word (CHR 0x60) = False"
  "is_word (CHR 0x61) = True"
  "is_word (CHR 0x62) = True"
  "is_word (CHR 0x63) = True"
  "is_word (CHR 0x64) = True"
  "is_word (CHR 0x65) = True"
  "is_word (CHR 0x66) = True"
  "is_word (CHR 0x67) = True"
  "is_word (CHR 0x68) = True"
  "is_word (CHR 0x69) = True"
  "is_word (CHR 0x6A) = True"
  "is_word (CHR 0x6B) = True"
  "is_word (CHR 0x6C) = True"
  "is_word (CHR 0x6D) = True"
  "is_word (CHR 0x6E) = True"
  "is_word (CHR 0x6F) = True"
  "is_word (CHR 0x70) = True"
  "is_word (CHR 0x71) = True"
  "is_word (CHR 0x72) = True"
  "is_word (CHR 0x73) = True"
  "is_word (CHR 0x74) = True"
  "is_word (CHR 0x75) = True"
  "is_word (CHR 0x76) = True"
  "is_word (CHR 0x77) = True"
  "is_word (CHR 0x78) = True"
  "is_word (CHR 0x79) = True"
  "is_word (CHR 0x7A) = True"
  "is_word (CHR 0x7B) = False"
  "is_word (CHR 0x7C) = False"
  "is_word (CHR 0x7D) = False"
  "is_word (CHR 0x7E) = False"
  by (simp_all add: is_word_def code_def)

lemma is_space_ascii:
  "is_space (CHR 0x0A) = True"
  "is_space (CHR 0x20) = True"
  "is_space (CHR 0x21) = False"
  "is_space (CHR 0x22) = False"
  "is_space (CHR 0x23) = False"
  "is_space (CHR 0x24) = False"
  "is_space (CHR 0x25) = False"
  "is_space (CHR 0x26) = False"
  "is_space (CHR 0x27) = False"
  "is_space (CHR 0x28) = False"
  "is_space (CHR 0x29) = False"
  "is_space (CHR 0x2A) = False"
  "is_space (CHR 0x2B) = False"
  "is_space (CHR 0x2C) = False"
  "is_space (CHR 0x2D) = False"
  "is_space (CHR 0x2E) = False"
  "is_space (CHR 0x2F) = False"
  "is_space (CHR 0x30) = False"
  "is_space (CHR 0x31) = False"
  "is_space (CHR 0x32) = False"
  "is_space (CHR 0x33) = False"
  "is_space (CHR 0x34) = False"
  "is_space (CHR 0x35) = False"
  "is_space (CHR 0x36) = False"
  "is_space (CHR 0x37) = False"
  "is_space (CHR 0x38) = False"
  "is_space (CHR 0x39) = False"
  "is_space (CHR 0x3A) = False"
  "is_space (CHR 0x3B) = False"
  "is_space (CHR 0x3C) = False"
  "is_space (CHR 0x3D) = False"
  "is_space (CHR 0x3E) = False"
  "is_space (CHR 0x3F) = False"
  "is_space (CHR 0x40) = False"
  "is_space (CHR 0x41) = False"
  "is_space (CHR 0x42) = False"
  "is_space (CHR 0x43) = False"
  "is_space (CHR 0x44) = False"
  "is_space (CHR 0x45) = False"
  "is_space (CHR 0x46) = False"
  "is_space (CHR 0x47) = False"
  "is_space (CHR 0x48) = False"
  "is_space (CHR 0x49) = False"
  "is_space (CHR 0x4A) = False"
  "is_space (CHR 0x4B) = False"
  "is_space (CHR 0x4C) = False"
  "is_space (CHR 0x4D) = False"
  "is_space (CHR 0x4E) = False"
  "is_space (CHR 0x4F) = False"
  "is_space (CHR 0x50) = False"
  "is_space (CHR 0x51) = False"
  "is_space (CHR 0x52) = False"
  "is_space (CHR 0x53) = False"
  "is_space (CHR 0x54) = False"
  "is_space (CHR 0x55) = False"
  "is_space (CHR 0x56) = False"
  "is_space (CHR 0x57) = False"
  "is_space (CHR 0x58) = False"
  "is_space (CHR 0x59) = False"
  "is_space (CHR 0x5A) = False"
  "is_space (CHR 0x5B) = False"
  "is_space (CHR 0x5C) = False"
  "is_space (CHR 0x5D) = False"
  "is_space (CHR 0x5E) = False"
  "is_space (CHR 0x5F) = False"
  "is_space (CHR 0x60) = False"
  "is_space (CHR 0x61) = False"
  "is_space (CHR 0x62) = False"
  "is_space (CHR 0x63) = False"
  "is_space (CHR 0x64) = False"
  "is_space (CHR 0x65) = False"
  "is_space (CHR 0x66) = False"
  "is_space (CHR 0x67) = False"
  "is_space (CHR 0x68) = False"
  "is_space (CHR 0x69) = False"
  "is_space (CHR 0x6A) = False"
  "is_space (CHR 0x6B) = False"
  "is_space (CHR 0x6C) = False"
  "is_space (CHR 0x6D) = False"
  "is_space (CHR 0x6E) = False"
  "is_space (CHR 0x6F) = False"
  "is_space (CHR 0x70) = False"
  "is_space (CHR 0x71) = False"
  "is_space (CHR 0x72) = False"
  "is_space (CHR 0x73) = False"
  "is_space (CHR 0x74) = False"
  "is_space (CHR 0x75) = False"
  "is_space (CHR 0x76) = False"
  "is_space (CHR 0x77) = False"
  "is_space (CHR 0x78) = False"
  "is_space (CHR 0x79) = False"
  "is_space (CHR 0x7A) = False"
  "is_space (CHR 0x7B) = False"
  "is_space (CHR 0x7C) = False"
  "is_space (CHR 0x7D) = False"
  "is_space (CHR 0x7E) = False"
  by (simp_all add: is_space_def code_def)

lemmas ascii = lower_char_ascii is_word_ascii is_space_ascii ch_eq_def lower_def

lemmas re_defs = re_findall_def found_of_def ngroups_def group_def backticked_def typed_word_def


section \<open>Properties of the Markdown Cleaner\<close>

text \<open>
  C1. The specification expects \<^verbatim>\<open>"See [Docs](http://x) and ![img](http://y) here"\<close> to be
  cleaned to \<^verbatim>\<open>"See Docs and  here"\<close>, the image removed with its exclamation mark,
  whatever the order of the link rule and the image rule. The script applies the link rule
  first; it rewrites the bracket part of the image as a link, so the image rule finds nothing
  and the result is \<^verbatim>\<open>"See Docs and !img here"\<close>.
\<close>

theorem clean_markdown_content_image_example:
  "clean_markdown_content ''See [Docs](http://x) and ![img](http://y) here'' =
     ''See Docs and !img here''"
  by code_simp

text \<open>With the image rule applied before the link rule the expected text comes out.\<close>

lemma image_rule_before_link_rule:
  "strip (re_sub False tag_re [] (re_sub False link_re [Ref 1] (re_sub False image_re []
     (re_sub False blank_lines_re [Text ''\<newline>\<newline>'']
        ''See [Docs](http://x) and ![img](http://y) here'')))) =
   ''See Docs and  here''"
  by code_simp

subsection \<open>Cleaning twice\<close>

lemma re_sub_no_match: "scan ic p s = [] \<Longrightarrow> re_sub ic p rp s = s"
  by (induction ic p s rule: scan.induct) (auto split: option.splits)

lemma dropWhile_rev_keep:
  assumes "a = [] \<or> \<not> P (hd a)"
  shows "dropWhile P (rev (dropWhile P (rev a))) = rev (dropWhile P (rev a))"
proof (cases a)
  case Nil
  then show ?thesis by simp
next
  case (Cons x b)
  then have nx: "\<not> P x" using assms by simp
  have "dropWhile P (rev b @ [x]) = dropWhile P (rev b) @ [x] \<or> dropWhile P (rev b @ [x]) = [x]"
    using nx by (simp add: dropWhile_append)
  then obtain ys where "dropWhile P (rev b @ [x]) = ys @ [x]"
    by auto
  then show ?thesis using Cons nx by simp
qed

lemma dropWhile_strip: "dropWhile is_space (strip s) = strip s"
  unfolding strip_def
  by (rule dropWhile_rev_keep) (metis dropWhile_eq_Nil_conv hd_dropWhile)

lemma strip_idem: "strip (strip s) = strip s"
proof -
  have "strip (strip s) = rev (dropWhile is_space (rev (strip s)))"
    by (simp add: strip_def[of "strip s"] dropWhile_strip)
  also have "rev (strip s) = dropWhile is_space (rev (dropWhile is_space s))"
    by (simp add: strip_def)
  also have "rev (dropWhile is_space (dropWhile is_space (rev (dropWhile is_space s)))) = strip s"
    by (simp add: strip_def dropWhile_dropWhile1)
  finally show ?thesis .
qed

text \<open>
  C5. Cleaning is not idempotent on every text: a rule can expose text that an earlier rule,
  or the same rule, would have rewritten. From \<^verbatim>\<open>"[[a](b)](c)"\<close> the link rule makes
  \<^verbatim>\<open>"[a](c)"\<close>, a link again, which a second cleaning turns into \<^verbatim>\<open>"a"\<close>.
\<close>

theorem clean_markdown_content_not_idempotent:
  "clean_markdown_content (clean_markdown_content ''[[a](b)](c)'') \<noteq>
   clean_markdown_content ''[[a](b)](c)''"
  by code_simp

text \<open>
  C5, amended. Cleaning a second time changes nothing when the cleaned text is clean, that
  is when none of the four patterns (blank lines, link, image, tag) matches in it.
\<close>

theorem clean_markdown_content_idempotent_on_clean:
  assumes "\<not> has_match blank_lines_re (clean_markdown_content s)"
    and "\<not> has_match link_re (clean_markdown_content s)"
    and "\<not> has_match image_re (clean_markdown_content s)"
    and "\<not> has_match tag_re (clean_markdown_content s)"
  shows "clean_markdown_content (clean_markdown_content s) = clean_markdown_content s"
proof -
  let ?t = "clean_markdown_content s"
  have st: "strip ?t = ?t"
    by (simp add: clean_markdown_content_def Let_def strip_idem)
  have "clean_markdown_content ?t = strip ?t"
    using assms unfolding has_match_def clean_markdown_content_def[of ?t] Let_def
    by (simp add: re_sub_no_match)
  then show ?thesis using st by simp
qed

theorem clean_markdown_content_idempotent_on_clean_witness:
  "\<not> has_match blank_lines_re (clean_markdown_content '' [a](b) <i>x</i> '') \<and>
   \<not> has_match link_re (clean_markdown_content '' [a](b) <i>x</i> '') \<and>
   \<not> has_match image_re (clean_markdown_content '' [a](b) <i>x</i> '') \<and>
   \<not> has_match tag_re (clean_markdown_content '' [a](b) <i>x</i> '') \<and>
   clean_markdown_content '' [a](b) <i>x</i> '' = ''a x'' \<and>
   clean_markdown_content (clean_markdown_content '' [a](b) <i>x</i> '') =
     clean_markdown_content '' [a](b) <i>x</i> ''"
proof -
  have e: "clean_markdown_content '' [a](b) <i>x</i> '' = ''a x''" by code_simp
  have h1: "\<not> has_match blank_lines_re (clean_markdown_content '' [a](b) <i>x</i> '')"
    unfolding e by code_simp
  have h2: "\<not> has_match link_re (clean_markdown_content '' [a](b) <i>x</i> '')"
    unfolding e by code_simp
  have h3: "\<not> has_match image_re (clean_markdown_content '' [a](b) <i>x</i> '')"
    unfolding e by code_simp
  have h4: "\<not> has_match tag_re (clean_markdown_content '' [a](b) <i>x</i> '')"
    unfolding e by code_simp
  show ?thesis
    using h1 h2 h3 h4 e clean_markdown_content_idempotent_on_clean [OF h1 h2 h3 h4] by simp
qed


section \<open>Properties of the Validator\<close>

text \<open>
  C3. For every file content, the Validator returns \<open>valid = h1_found \<and> blockquote_found \<and>
  h2_count \<ge> 1\<close>, where \<open>h1_found\<close> says that some line starts with \<^verbatim>\<open>"# "\<close>,
  \<open>blockquote_found\<close> that some line starts with \<^verbatim>\<open>"> "\<close>, and \<open>h2_count\<close> counts the
  lines starting with \<^verbatim>\<open>"## "\<close>. \<open>links_found\<close> takes no part in \<open>valid\<close>. A file
  without a line starting with \<^verbatim>\<open>"> "\<close> is reported invalid, with \<open>blockquote_found\<close>
  false. The lines are those of the text as read from the file.
\<close>

theorem validate_llms_txt_valid:
  assumes "fs file_path = Some t"
  defines "lines \<equiv> split_nl (universal_newlines t)"
  shows "\<exists>r. validate_llms_txt fs file_path = Inr (valid r, r) \<and>
     (h1_found r \<longleftrightarrow> (\<exists>line \<in> set lines. startswith line ''# '')) \<and>
     (blockquote_found r \<longleftrightarrow> (\<exists>line \<in> set lines. startswith line ''> '')) \<and>
     h2_count r = length (filter (\<lambda>line. startswith line ''## '') lines) \<and>
     (valid r \<longleftrightarrow> h1_found r \<and> blockquote_found r \<and> h2_count r \<ge> 1) \<and>
     ((\<forall>line \<in> set lines. \<not> startswith line ''> '') \<longrightarrow> \<not> valid r \<and> \<not> blockquote_found r)"
  using assms
  by (auto simp: validate_llms_txt_def read_text_def check_content_def Let_def list_ex_iff)

theorem validate_llms_txt_valid_witness:
  "[''llms.txt'' \<mapsto> ''# T\<newline>## S''] ''llms.txt'' = Some ''# T\<newline>## S'' \<and>
   \<not> list_ex (\<lambda>line. startswith line ''> '') (split_nl (universal_newlines ''# T\<newline>## S'')) \<and>
   (\<exists>r. validate_llms_txt [''llms.txt'' \<mapsto> ''# T\<newline>## S''] ''llms.txt'' = Inr (False, r) \<and>
        h1_found r \<and> \<not> blockquote_found r \<and> h2_count r = 1 \<and> \<not> valid r)"
proof -
  have h: "[''llms.txt'' \<mapsto> ''# T\<newline>## S''] ''llms.txt'' = Some ''# T\<newline>## S''"
    by simp
  have l: "split_nl (universal_newlines ''# T\<newline>## S'') = [''# T'', ''## S'']"
    by simp
  from validate_llms_txt_valid [of "[''llms.txt'' \<mapsto> ''# T\<newline>## S'']" "''llms.txt''"
      "''# T\<newline>## S''", OF h] obtain r where
    r: "validate_llms_txt [''llms.txt'' \<mapsto> ''# T\<newline>## S''] ''llms.txt'' = Inr (valid r, r)"
       "h1_found r \<longleftrightarrow> (\<exists>line \<in> set (split_nl (universal_newlines ''# T\<newline>## S'')).
          startswith line ''# '')"
       "h2_count r = length (filter (\<lambda>line. startswith line ''## '')
          (split_nl (universal_newlines ''# T\<newline>## S'')))"
       "(\<forall>line \<in> set (split_nl (universal_newlines ''# T\<newline>## S'')). \<not> startswith line ''> '')
          \<longrightarrow> \<not> valid r \<and> \<not> blockquote_found r"
    by blast
  have n: "\<forall>line \<in> set (split_nl (universal_newlines ''# T\<newline>## S'')). \<not> startswith line ''> ''"
    unfolding l by simp
  have "h1_found r" "h2_count r = 1" "\<not> valid r" "\<not> blockquote_found r"
    using r n unfolding l by simp_all
  then show ?thesis using h n r(1) by (auto simp: list_ex_iff)
qed


section \<open>Properties of the Fetcher\<close>

text \<open>
  C7. The Fetcher is not free of exceptions, and it does not return the empty string for every
  status other than success. It catches \<^verbatim>\<open>requests.RequestException\<close> only, so any other
  exception of \<^verbatim>\<open>requests.get\<close> reaches the caller; and \<^verbatim>\<open>raise_for_status\<close> raises for
  400 to 599 only, so the body of a 300 response is returned as it is.
\<close>

theorem fetch_web_content_can_raise:
  "fetch_web_content failing_library ''https://www.openresponses.org/specification'' =
     (Inl (OtherException ''boom''), []) \<and>
   fetch_web_content multiple_choices ''https://www.openresponses.org/specification'' =
     (Inr ''<p>Multiple Choices</p>'', []) \<and>
   fst (fetch_web_content multiple_choices ''https://www.openresponses.org/specification'') \<noteq>
     Inr []"
  by (simp add: fetch_web_content_def fetch_handler_def raise_for_status_def failing_library_def
      multiple_choices_def)

text \<open>
  C7, amended. When the HTTP GET fails with a \<^verbatim>\<open>RequestException\<close> (a network error), or
  returns a response with a status from 400 to 599, the Fetcher prints a diagnostic and
  returns the empty string. For a response with any other status it returns the text of the
  response. An exception of \<^verbatim>\<open>requests.get\<close> that is not a \<^verbatim>\<open>RequestException\<close> is
  raised to the caller, and that is the only way the Fetcher raises.
\<close>

theorem fetch_web_content_outcomes:
  "(http url = Raises (RequestException msg) \<longrightarrow>
      fetch_web_content http url = (Inr [], [''Error fetching '' @ url @ '': '' @ msg])) \<and>
   (http url = Returns r \<and> 400 \<le> status_code r \<and> status_code r < 600 \<longrightarrow>
      fetch_web_content http url = (Inr [], [''Error fetching '' @ url @ '': '' @ http_error r])) \<and>
   (http url = Returns r \<and> \<not> (400 \<le> status_code r \<and> status_code r < 600) \<longrightarrow>
      fetch_web_content http url = (Inr (response_text r), [])) \<and>
   (http url = Raises e \<and> \<not> is_request_exception e \<longrightarrow>
      fetch_web_content http url = (Inl e, [])) \<and>
   (fst (fetch_web_content http url) = Inl e \<longrightarrow>
      http url = Raises e \<and> \<not> is_request_exception e)"
proof -
  have a: "http url = Raises (RequestException msg) \<longrightarrow>
      fetch_web_content http url = (Inr [], [''Error fetching '' @ url @ '': '' @ msg])"
    by (simp add: fetch_web_content_def fetch_handler_def)
  have b: "http url = Returns r \<and> 400 \<le> status_code r \<and> status_code r < 600 \<longrightarrow>
      fetch_web_content http url = (Inr [], [''Error fetching '' @ url @ '': '' @ http_error r])"
    by (simp add: fetch_web_content_def fetch_handler_def raise_for_status_def)
  have c: "http url = Returns r \<and> \<not> (400 \<le> status_code r \<and> status_code r < 600) \<longrightarrow>
      fetch_web_content http url = (Inr (response_text r), [])"
    by (auto simp: fetch_web_content_def raise_for_status_def)
  have d: "http url = Raises e \<and> \<not> is_request_exception e \<longrightarrow>
      fetch_web_content http url = (Inl e, [])"
    by (cases e) (simp_all add: fetch_web_content_def fetch_handler_def)
  have f: "fst (fetch_web_content http url) = Inl e \<longrightarrow>
      http url = Raises e \<and> \<not> is_request_exception e"
  proof (cases "http url")
    case (Raises x)
    then show ?thesis
      by (cases x) (auto simp: fetch_web_content_def fetch_handler_def)
  next
    case (Returns x)
    then show ?thesis
      by (auto simp: fetch_web_content_def fetch_handler_def raise_for_status_def)
  qed
  show ?thesis using a b c d f by blast
qed

theorem fetch_web_content_outcomes_witness:
  "fetch_web_content (\<lambda>u. Raises (RequestException ''timed out'')) ''http://x'' =
     (Inr [], [''Error fetching http://x: timed out'']) \<and>
   fetch_web_content
     (\<lambda>u. Returns \<lparr>status_code = 404, response_text = ''gone'', http_error = ''404 Client Error''\<rparr>)
     ''http://x'' = (Inr [], [''Error fetching http://x: 404 Client Error'']) \<and>
   fetch_web_content
     (\<lambda>u. Returns \<lparr>status_code = 200, response_text = ''<p>hi</p>'', http_error = []\<rparr>)
     ''http://x'' = (Inr ''<p>hi</p>'', []) \<and>
   fetch_web_content failing_library ''http://x'' = (Inl (OtherException ''boom''), []) \<and>
   failing_library ''http://x'' = Raises (OtherException ''boom'')"
proof -
  have a: "fetch_web_content (\<lambda>u. Raises (RequestException ''timed out'')) ''http://x'' =
     (Inr [], [''Error fetching http://x: timed out''])"
    using fetch_web_content_outcomes [of "\<lambda>u. Raises (RequestException ''timed out'')"
      "''http://x''" "''timed out''"] by simp
  have b: "fetch_web_content
     (\<lambda>u. Returns \<lparr>status_code = 404, response_text = ''gone'', http_error = ''404 Client Error''\<rparr>)
     ''http://x'' = (Inr [], [''Error fetching http://x: 404 Client Error''])"
    using fetch_web_content_outcomes [of
      "\<lambda>u. Returns \<lparr>status_code = 404, response_text = ''gone'', http_error = ''404 Client Error''\<rparr>"
      "''http://x''" _
      "\<lparr>status_code = 404, response_text = ''gone'', http_error = ''404 Client Error''\<rparr>"]
    by simp
  have c: "fetch_web_content
     (\<lambda>u. Returns \<lparr>status_code = 200, response_text = ''<p>hi</p>'', http_error = []\<rparr>)
     ''http://x'' = (Inr ''<p>hi</p>'', [])"
    using fetch_web_content_outcomes [of
      "\<lambda>u. Returns \<lparr>status_code = 200, response_text = ''<p>hi</p>'', http_error = []\<rparr>"
      "''http://x''" _
      "\<lparr>status_code = 200, response_text = ''<p>hi</p>'', http_error = []\<rparr>"]
    by simp
  have h: "failing_library ''http://x'' = Raises (OtherException ''boom'')"
    by (simp add: failing_library_def)
  have d: "fetch_web_content failing_library ''http://x'' = (Inl (OtherException ''boom''), [])"
    using fetch_web_content_outcomes [of failing_library "''http://x''" _ _ "OtherException ''boom''"] h
    by simp
  show ?thesis using a b c d h by blast
qed


section \<open>Properties of the Document Assembler\<close>

subsection \<open>Writing the document and reading it back\<close>

lemma split_nl_not_Nil: "split_nl s \<noteq> []"
  by (induction s) (auto split: list.splits)

lemma split_nl_append: "split_nl (a @ LF # b) = split_nl a @ split_nl b"
proof (induction a)
  case Nil
  show ?case by simp
next
  case (Cons c a)
  then show ?case
    using split_nl_not_Nil[of a] by (cases "split_nl a") auto
qed

lemma split_nl_line: "LF \<notin> set l \<Longrightarrow> split_nl l = [l]"
  by (induction l) auto

lemma universal_newlines_Cons: "c \<noteq> CR \<Longrightarrow> universal_newlines (c # s) = c # universal_newlines s"
  by (cases s) auto

lemma universal_newlines_append: "CR \<notin> set a \<Longrightarrow> universal_newlines (a @ b) = a @ universal_newlines b"
  by (induction a) (auto simp: universal_newlines_Cons)

lemma universal_newlines_id: "CR \<notin> set a \<Longrightarrow> universal_newlines a = a"
  using universal_newlines_append[of a "[]"] by simp

lemma universal_newlines_break:
  "\<exists>x. universal_newlines (a @ LF # b) = x @ LF # universal_newlines b"
proof (induction a rule: universal_newlines.induct)
  case 1
  show ?case by (simp add: universal_newlines_Cons)
next
  case (2 c)
  show ?case
  proof (cases "c = CR")
    case True
    then show ?thesis by simp
  next
    case False
    then have "universal_newlines ([c] @ LF # b) = [c] @ LF # universal_newlines b"
      by (simp add: universal_newlines_Cons)
    then show ?thesis by blast
  qed
next
  case (3 c d cs)
  show ?case
  proof (cases "c = CR")
    case True
    show ?thesis
    proof (cases "d = LF")
      case T2: True
      from 3(1)[OF True T2] obtain x where "universal_newlines (cs @ LF # b) = x @ LF # universal_newlines b" ..
      then have "universal_newlines ((c # d # cs) @ LF # b) = (LF # x) @ LF # universal_newlines b"
        using True T2 by simp
      then show ?thesis by blast
    next
      case F2: False
      from 3(2)[OF True F2] obtain x where "universal_newlines ((d # cs) @ LF # b) = x @ LF # universal_newlines b" ..
      then have "universal_newlines ((c # d # cs) @ LF # b) = (LF # x) @ LF # universal_newlines b"
        using True F2 by simp
      then show ?thesis by blast
    qed
  next
    case False
    from 3(3)[OF False] obtain x where "universal_newlines ((d # cs) @ LF # b) = x @ LF # universal_newlines b" ..
    then have "universal_newlines ((c # d # cs) @ LF # b) = (c # x) @ LF # universal_newlines b"
      using False by simp
    then show ?thesis by blast
  qed
qed

lemma join_nl_Cons: "ls \<noteq> [] \<Longrightarrow> join_nl (l # ls) = l @ LF # join_nl ls"
  by (cases ls) auto

lemma join_nl_append: "xs \<noteq> [] \<Longrightarrow> ys \<noteq> [] \<Longrightarrow> join_nl (xs @ ys) = join_nl xs @ LF # join_nl ys"
proof (induction xs)
  case Nil
  then show ?case by simp
next
  case (Cons x xs)
  then show ?case by (cases "xs = []") (auto simp: join_nl_Cons)
qed

lemma join_nl_no_CR: "list_all plain ls \<Longrightarrow> CR \<notin> set (join_nl ls)"
  by (induction ls rule: join_nl.induct) (auto simp: plain_def)

lemma split_join_plain: "list_all plain ls \<Longrightarrow> ls \<noteq> [] \<Longrightarrow> split_nl (join_nl ls) = ls"
proof (induction ls rule: join_nl.induct)
  case 1
  then show ?case by simp
next
  case (2 l)
  then show ?case by (simp add: plain_def split_nl_line)
next
  case (3 l v va)
  then show ?case by (simp add: split_nl_append split_nl_line plain_def)
qed

lemma plain_title: "list_all plain title_lines"
  by (simp add: title_lines_def plain_def)

lemma plain_static: "list_all plain static_sections"
  by (simp add: static_sections_def resources_section_def documentation_section_def examples_section_def plain_def)

lemma read_back:
  "\<exists>ys. split_nl (universal_newlines (join_nl (title_lines @ mid @ static_sections))) =
     title_lines @ ys @ static_sections \<and> (mid = [] \<longrightarrow> ys = [])"
proof -
  have t: "title_lines \<noteq> []" by (simp add: title_lines_def)
  have s: "static_sections \<noteq> []" by (simp add: static_sections_def resources_section_def)
  have j: "join_nl (title_lines @ mid @ static_sections) =
      join_nl title_lines @ LF # join_nl (mid @ static_sections)"
    using t s by (simp add: join_nl_append)
  have u: "universal_newlines (join_nl (title_lines @ mid @ static_sections)) =
      join_nl title_lines @ LF # universal_newlines (join_nl (mid @ static_sections))"
    unfolding j using join_nl_no_CR[OF plain_title]
    by (simp add: universal_newlines_append universal_newlines_Cons)
  have st: "split_nl (join_nl title_lines) = title_lines"
    using split_join_plain[OF plain_title t] .
  have ss: "universal_newlines (join_nl static_sections) = join_nl static_sections"
    using join_nl_no_CR[OF plain_static] by (rule universal_newlines_id)
  have sp: "split_nl (join_nl static_sections) = static_sections"
    using split_join_plain[OF plain_static s] .
  show ?thesis
  proof (cases "mid = []")
    case True
    then show ?thesis unfolding u by (simp add: split_nl_append st ss sp)
  next
    case False
    then have "join_nl (mid @ static_sections) = join_nl mid @ LF # join_nl static_sections"
      using s by (simp add: join_nl_append)
    moreover obtain x where "universal_newlines (join_nl mid @ LF # join_nl static_sections) =
        x @ LF # universal_newlines (join_nl static_sections)"
      using universal_newlines_break by blast
    ultimately have "split_nl (universal_newlines (join_nl (title_lines @ mid @ static_sections))) =
       title_lines @ split_nl x @ static_sections"
      unfolding u by (simp add: split_nl_append st ss sp)
    then show ?thesis using False by blast
  qed
qed


lemma count_title: "filter (\<lambda>line. startswith line ''## '') title_lines = []"
  by (simp add: title_lines_def)

lemma count_static: "length (filter (\<lambda>line. startswith line ''## '') static_sections) = 3"
  by (simp add: static_sections_def resources_section_def documentation_section_def examples_section_def)

lemma h1_title: "length (filter (\<lambda>line. startswith line ''# '') title_lines) = 1"
  by (simp add: title_lines_def)

lemma h1_static: "filter (\<lambda>line. startswith line ''# '') static_sections = []"
  by (simp add: static_sections_def resources_section_def documentation_section_def examples_section_def)

lemma bq_title: "length (filter (\<lambda>line. startswith line ''> '') title_lines) = 1"
  by (simp add: title_lines_def)

lemma bq_static: "filter (\<lambda>line. startswith line ''> '') static_sections = []"
  by (simp add: static_sections_def resources_section_def documentation_section_def examples_section_def)

lemma links_static: "list_ex (\<lambda>line. has_char CHR ''['' line \<and> has_char CHR '']'' line \<and>
     has_char CHR ''('' line \<and> has_char CHR '')'' line) static_sections"
  by (simp add: static_sections_def resources_section_def has_char_def)

lemma h1_in_title: "list_ex (\<lambda>line. startswith line ''# '') title_lines"
  by (simp add: title_lines_def)

lemma bq_in_title: "list_ex (\<lambda>line. startswith line ''> '') title_lines"
  by (simp add: title_lines_def)

lemma llms_content_shape: "\<exists>mid. llms_content info = title_lines @ mid @ static_sections \<and>
   (info = None \<longrightarrow> mid = [])"
  by (cases info) (simp_all add: llms_content_def)

lemma check_assembled:
  "\<exists>r. check_content (universal_newlines (join_nl (llms_content info))) = r \<and>
     h1_found r \<and> blockquote_found r \<and> 3 \<le> h2_count r \<and> links_found r \<and> valid r"
proof -
  obtain mid where m: "llms_content info = title_lines @ mid @ static_sections"
    using llms_content_shape by blast
  obtain ys where y: "split_nl (universal_newlines (join_nl (llms_content info))) =
     title_lines @ ys @ static_sections"
    unfolding m using read_back by blast
  show ?thesis
    unfolding check_content_def Let_def y
    using h1_in_title bq_in_title count_static links_static
    by simp
qed

subsection \<open>The sections\<close>






text \<open>
  C10. The document does not depend on the list of response fields: two records that agree
  on the core concepts, the endpoints, the parameters and the streaming events give the
  same lines.
\<close>

theorem llms_content_ignores_response_fields:
  "core_concepts a = core_concepts b \<Longrightarrow> endpoints a = endpoints b \<Longrightarrow>
   parameters a = parameters b \<Longrightarrow> streaming_events a = streaming_events b \<Longrightarrow>
   llms_content (Some a) = llms_content (Some b)"
  by (simp add: llms_content_def concepts_section_def api_section_def events_section_def)

theorem llms_content_ignores_response_fields_witness:
  "llms_content (Some \<lparr>core_concepts = [], endpoints = [''GET /a''], parameters = [],
      response_fields = [''status''], streaming_events = [''response.done'']\<rparr>) =
   llms_content (Some \<lparr>core_concepts = [], endpoints = [''GET /a''], parameters = [],
      response_fields = [''usage'', ''error''], streaming_events = [''response.done'']\<rparr>)"
  by (rule llms_content_ignores_response_fields) simp_all

subsection \<open>The document is valid\<close>

text \<open>
  C8. When the five lists are empty the document is the title, the summary and the three
  static sections, and the Validator accepts the file written from it: one line starting
  with \<^verbatim>\<open>"# "\<close>, one starting with \<^verbatim>\<open>"> "\<close>, three starting with \<^verbatim>\<open>"## "\<close>.
\<close>

theorem empty_extraction_document_valid:
  assumes "core_concepts ki = []" and "endpoints ki = []" and "parameters ki = []"
    and "response_fields ki = []" and "streaming_events ki = []"
  shows "llms_content (Some ki) = title_lines @ static_sections \<and>
    validate_llms_txt (write_text fs output_path (join_nl (llms_content (Some ki)))) output_path =
      Inr (True, \<lparr>h1_found = True, blockquote_found = True, h2_count = 3, links_found = True,
                  valid = True\<rparr>) \<and>
    (let lines = split_nl (universal_newlines (join_nl (llms_content (Some ki)))) in
       length (filter (\<lambda>line. startswith line ''# '') lines) = 1 \<and>
       length (filter (\<lambda>line. startswith line ''> '') lines) = 1 \<and>
       length (filter (\<lambda>line. startswith line ''## '') lines) = 3)"
proof -
  have d: "llms_content (Some ki) = title_lines @ static_sections"
    using assms by (simp add: llms_content_def concepts_section_def api_section_def events_section_def)
  have y: "split_nl (universal_newlines (join_nl (llms_content (Some ki)))) =
     title_lines @ static_sections"
    unfolding d using read_back[of "[]"] by simp
  have c: "check_content (universal_newlines (join_nl (llms_content (Some ki)))) =
     \<lparr>h1_found = True, blockquote_found = True, h2_count = 3, links_found = True, valid = True\<rparr>"
    unfolding check_content_def Let_def y
    using h1_in_title bq_in_title count_static count_title links_static
    by simp
  have v: "validate_llms_txt (write_text fs output_path (join_nl (llms_content (Some ki)))) output_path =
      Inr (True, \<lparr>h1_found = True, blockquote_found = True, h2_count = 3, links_found = True,
                  valid = True\<rparr>)"
    by (simp add: validate_llms_txt_def read_text_def write_text_def c)
  show ?thesis
    unfolding Let_def y using d v h1_title h1_static bq_title bq_static count_title count_static
    by simp
qed

lemma extract_nothing:
  "extract_key_info_from_content [] =
     \<lparr>core_concepts = [], endpoints = [], parameters = [], response_fields = [],
      streaming_events = []\<rparr>"
  by code_simp

theorem empty_extraction_document_valid_witness:
  "core_concepts (extract_key_info_from_content []) = [] \<and>
   endpoints (extract_key_info_from_content []) = [] \<and>
   parameters (extract_key_info_from_content []) = [] \<and>
   response_fields (extract_key_info_from_content []) = [] \<and>
   streaming_events (extract_key_info_from_content []) = [] \<and>
   validate_llms_txt
     (write_text Map.empty ''llms.txt''
        (join_nl (llms_content (Some (extract_key_info_from_content [])))))
     ''llms.txt'' =
     Inr (True, \<lparr>h1_found = True, blockquote_found = True, h2_count = 3, links_found = True,
                 valid = True\<rparr>)"
proof -
  have h: "core_concepts (extract_key_info_from_content []) = []"
    "endpoints (extract_key_info_from_content []) = []"
    "parameters (extract_key_info_from_content []) = []"
    "response_fields (extract_key_info_from_content []) = []"
    "streaming_events (extract_key_info_from_content []) = []"
    by (simp_all add: extract_nothing)
  have "validate_llms_txt
     (write_text Map.empty ''llms.txt''
        (join_nl (llms_content (Some (extract_key_info_from_content [])))))
     ''llms.txt'' =
     Inr (True, \<lparr>h1_found = True, blockquote_found = True, h2_count = 3, links_found = True,
                 valid = True\<rparr>)"
    using empty_extraction_document_valid [OF h, of Map.empty "''llms.txt''"] by blast
  then show ?thesis using h by blast
qed

text \<open>
  C9. Whatever the fetch gives and whatever is extracted, the document has the line
  \<^verbatim>\<open># Open Responses\<close>, the summary line starting with \<^verbatim>\<open>"> "\<close> and at least three
  lines starting with \<^verbatim>\<open>"## "\<close>; the Validator finds them in the file written from it and
  returns \<open>valid = True\<close>. So the generator never raises the \<^verbatim>\<open>ValueError\<close> of a failed
  validation: it returns \<open>True\<close>, unless the fetch itself lets an exception through.
\<close>

theorem generated_document_always_valid:
  "(\<exists>r. validate_llms_txt (write_text fs output_path (join_nl (llms_content info))) output_path =
          Inr (True, r) \<and>
        h1_found r \<and> blockquote_found r \<and> 3 \<le> h2_count r \<and> valid r) \<and>
   ''# Open Responses'' \<in> set (llms_content info) \<and>
   list_ex (\<lambda>line. startswith line ''> '') (llms_content info) \<and>
   3 \<le> length (filter (\<lambda>line. startswith line ''## '') (llms_content info)) \<and>
   fst (generate_llms_txt_from_docs http parse fs docs_dir output_path) =
     (case fst (fetch_web_content http specification_url) of Inl e \<Rightarrow> Inl e | Inr html \<Rightarrow> Inr True)"
proof -
  obtain mid where m: "llms_content info = title_lines @ mid @ static_sections"
    using llms_content_shape by blast
  have v: "\<And>i. \<exists>r. validate_llms_txt (write_text fs output_path (join_nl (llms_content i))) output_path =
          Inr (True, r) \<and> h1_found r \<and> blockquote_found r \<and> 3 \<le> h2_count r \<and> valid r"
    using check_assembled
    by (simp add: validate_llms_txt_def read_text_def write_text_def Let_def)
  have a: "''# Open Responses'' \<in> set (llms_content info)"
    unfolding m by (simp add: title_lines_def)
  have b: "list_ex (\<lambda>line. startswith line ''> '') (llms_content info)"
    unfolding m using bq_in_title by simp
  have c: "3 \<le> length (filter (\<lambda>line. startswith line ''## '') (llms_content info))"
    unfolding m using count_static by simp
  have g: "fst (generate_llms_txt_from_docs http parse fs docs_dir output_path) =
     (case fst (fetch_web_content http specification_url) of Inl e \<Rightarrow> Inl e | Inr html \<Rightarrow> Inr True)"
  proof (cases "fst (fetch_web_content http specification_url)")
    case (Inl e)
    then show ?thesis by (simp add: generate_llms_txt_from_docs_def)
  next
    case (Inr html)
    define i where "i = (if html \<noteq> []
                  then Some (extract_key_info_from_content
                         (clean_markdown_content
                            (extract_mdx_like_content_from_html parse html)))
                  else None)"
    obtain r where "validate_llms_txt (write_text fs output_path (join_nl (llms_content i))) output_path =
          Inr (True, r)" using v by blast
    then show ?thesis using Inr
      by (simp add: generate_llms_txt_from_docs_def Let_def i_def)
  qed
  show ?thesis using v a b c g by blast
qed


section \<open>Properties of the Key-Information Extractor\<close>

subsection \<open>Each list holds the candidates in the order of first discovery\<close>

lemma foldl_add_new: "foldl add_new [] xs = first_seen xs"
  by (induction xs rule: rev_induct) (auto simp: first_seen_def add_new_def)

lemma foldl_select:
  assumes "\<And>acc f. add acc f = (case sel f of None \<Rightarrow> acc | Some x \<Rightarrow> add_new acc x)"
  shows "foldl add acc fs = foldl add_new acc (List.map_filter sel fs)"
  by (induction fs arbitrary: acc) (simp_all add: assms map_filter_simps split: option.splits)

lemma foldl_nested: "foldl (\<lambda>acc p. foldl add acc (g p)) a ps = foldl add a (concat (map g ps))"
  by (induction ps arbitrary: a) simp_all

lemma harvest_first_seen:
  assumes "\<And>acc f. add acc f = (case sel f of None \<Rightarrow> acc | Some x \<Rightarrow> add_new acc x)"
  shows "harvest add ic ps content = first_seen (gather sel ic ps content)"
proof -
  have "harvest add ic ps content = foldl add [] (concat (map (\<lambda>p. re_findall ic p content) ps))"
    by (simp add: harvest_def foldl_nested)
  also have "\<dots> = foldl add_new [] (gather sel ic ps content)"
    unfolding gather_def by (rule foldl_select[OF assms])
  finally show ?thesis by (simp add: foldl_add_new)
qed

lemma add_concept_sel: "add_concept acc f = (case concept_of f of None \<Rightarrow> acc | Some x \<Rightarrow> add_new acc x)"
  by (simp add: add_concept_def concept_of_def add_new_def Let_def)

lemma add_endpoint_sel: "add_endpoint acc f = (case endpoint_of f of None \<Rightarrow> acc | Some x \<Rightarrow> add_new acc x)"
  by (simp add: add_endpoint_def endpoint_of_def add_new_def Let_def split: found.splits list.splits)

lemma add_param_sel: "add_param acc f = (case param_of f of None \<Rightarrow> acc | Some x \<Rightarrow> add_new acc x)"
  by (auto simp: add_param_def param_of_def add_new_def Let_def)

lemma add_field_sel: "add_field acc f = (case field_of f of None \<Rightarrow> acc | Some x \<Rightarrow> add_new acc x)"
  by (auto simp: add_field_def field_of_def add_new_def split: found.splits)

lemma add_event_sel: "add_event acc f = (case event_of f of None \<Rightarrow> acc | Some x \<Rightarrow> add_new acc x)"
  by (auto simp: add_event_def event_of_def add_new_def split: found.splits)

lemma distinct_first_seen: "distinct (first_seen xs)"
  by (simp add: first_seen_def)

lemma first_seen_distinct: "distinct xs \<Longrightarrow> first_seen xs = xs"
  by (simp add: first_seen_def distinct_remdups_id)

lemma key_info_fields:
  "core_concepts (extract_key_info_from_content content) =
     take 5 (first_seen (gather concept_of True concepts_patterns content))"
  "endpoints (extract_key_info_from_content content) =
     take 10 (first_seen (gather endpoint_of False [endpoint_re] content))"
  "parameters (extract_key_info_from_content content) =
     take 20 (first_seen (gather param_of True param_patterns content))"
  "response_fields (extract_key_info_from_content content) =
     take 20 (first_seen (gather field_of True field_patterns content))"
  "streaming_events (extract_key_info_from_content content) =
     take 15 (first_seen (gather event_of False [event_pattern] content))"
  by (simp_all add: extract_key_info_from_content_def
      harvest_first_seen[of add_concept concept_of, OF add_concept_sel]
      harvest_first_seen[of add_endpoint endpoint_of, OF add_endpoint_sel]
      harvest_first_seen[of add_param param_of, OF add_param_sel]
      harvest_first_seen[of add_field field_of, OF add_field_sel]
      harvest_first_seen[of add_event event_of, OF add_event_sel])

subsection \<open>A text of streaming events\<close>

lemma star_run:
  assumes "list_all (cls_ok ic c) u" and "\<not> cls_ok ic c y"
    and "m ic ts (y # r) (pos + length u) os cs = Some res"
  shows "m ic (Star c # ts) (u @ y # r) pos os cs = Some res"
  using assms by (induction u arbitrary: pos) simp_all

lemma backtick_not_word: "\<not> cls_ok False (WordOr ''_'') (CHR 0x60)"
  by (simp add: is_word_def code_def ch_eq_def)

lemma not_backtick_start: "x \<noteq> CHR 0x60 \<Longrightarrow> match_at False event_pattern (x # s) = None"
  by (simp add: event_pattern_def ch_eq_def)

lemma event_tail:
  assumes "list_all (cls_ok False (WordOr ''_'')) u"
  shows "m False [Star (WordOr ''_''), Close (Suc 0), One (Ch (CHR 0x60))] (u @ CHR 0x60 # r) pos
      [(Suc 0, b)] [] = Some (Suc (pos + length u), [(Suc 0, b, pos + length u)])"
  by (rule star_run[OF assms backtick_not_word]) (simp add: ch_eq_def)

lemma event_match:
  assumes "w \<noteq> []" and "list_all is_word w" and "a = ''response.'' @ w"
  shows "match_at False event_pattern (CHR 0x60 # a @ CHR 0x60 # rest) =
     Some (Suc (Suc (length a)), [(Suc 0, Suc 0, Suc (length a))])"
proof -
  obtain x u where w: "w = x # u" using assms(1) by (cases w) auto
  have u: "list_all (cls_ok False (WordOr ''_'')) u" and x: "is_word x"
    using assms(2) w by (simp_all add: list_all_iff)
  show ?thesis
    using x by (simp add: event_pattern_def ch_eq_def w assms(3) event_tail[OF u])
qed

lemma scan_event:
  assumes "w \<noteq> []" and "list_all is_word w" and "a = ''response.'' @ w"
  shows "scan False event_pattern (CHR 0x60 # a @ CHR 0x60 # rest) =
     (CHR 0x60 # a @ [CHR 0x60], [(Suc 0, Suc 0, Suc (length a))]) # scan False event_pattern rest"
  by (subst scan.simps) (simp add: event_match[OF assms])

lemma scan_no_backtick:
  "CHR 0x60 \<notin> set s \<Longrightarrow> scan False event_pattern (s @ rest) = scan False event_pattern rest"
  by (induction s) (auto simp: not_backtick_start)

lemma scan_no_event: "CHR 0x60 \<notin> set s \<Longrightarrow> scan False event_pattern s = []"
  using scan_no_backtick[of s "[]"] by (simp add: event_pattern_def)

lemma ngroups_event: "ngroups event_pattern = 1"
  by (simp add: ngroups_def event_pattern_def)

lemma found_event:
  "found_of event_pattern (CHR 0x60 # a @ [CHR 0x60], [(Suc 0, Suc 0, Suc (length a))]) = Str a"
  by (simp add: found_of_def ngroups_event group_def)

lemma findall_events:
  assumes "CHR 0x60 \<notin> set end_text"
  shows "event_words sws \<Longrightarrow>
   re_findall False event_pattern (events_text sws end_text) = map Str (event_names sws)"
proof (induction sws)
  case Nil
  show ?case using assms by (simp add: re_findall_def events_text_def event_names_def scan_no_event)
next
  case (Cons p sws)
  then have w: "snd p \<noteq> []" "list_all is_word (snd p)" and s: "CHR 0x60 \<notin> set (fst p)"
    and r: "event_words sws"
    by (simp_all add: event_words_def)
  define a where "a = ''response.'' @ snd p"
  have e: "events_text (p # sws) end_text =
      fst p @ CHR 0x60 # a @ CHR 0x60 # events_text sws end_text"
    by (simp add: events_text_def a_def)
  have "re_findall False event_pattern (events_text (p # sws) end_text) =
      Str a # re_findall False event_pattern (events_text sws end_text)"
    unfolding re_findall_def e scan_no_backtick[OF s] scan_event[OF w a_def]
    by (simp only: list.map found_event)
  then show ?case using Cons(1)[OF r] by (simp add: a_def event_names_def)
qed

lemma streaming_events_of_text:
  assumes "event_words sws" and "CHR 0x60 \<notin> set end_text"
  shows "streaming_events (extract_key_info_from_content (events_text sws end_text)) =
      take 15 (first_seen (event_names sws))"
proof -
  have "gather event_of False [event_pattern] (events_text sws end_text) = event_names sws"
    by (simp add: gather_def findall_events[OF assms(2) assms(1)] map_filter_def event_of_def
        comp_def)
  then show ?thesis by (simp add: key_info_fields)
qed

subsection \<open>The lists of a record\<close>

lemma params_found:
  "re_findall True param_re_1 ''`foo` (string) ... `bar` (string) ... `foo` (string)'' =
     [Str ''foo'', Str ''bar'', Str ''foo'']"
  "re_findall True param_re_2 ''`foo` (string) ... `bar` (string) ... `foo` (string)'' = []"
  "re_findall True param_re_3 ''`foo` (string) ... `bar` (string) ... `foo` (string)'' = []"
  "re_findall True param_re_4 ''`foo` (string) ... `bar` (string) ... `foo` (string)'' = []"
  by (simp_all add: param_re_1_def param_re_2_def param_re_3_def param_re_4_def ascii re_defs)

lemma params_example:
  "parameters (extract_key_info_from_content
      ''`foo` (string) ... `bar` (string) ... `foo` (string)'') = [''foo'', ''bar'']"
proof -
  have "harvest add_param True param_patterns
      ''`foo` (string) ... `bar` (string) ... `foo` (string)'' = [''foo'', ''bar'']"
    by (simp add: harvest_def param_patterns_def params_found add_param_def ascii stop_words_def)
  then show ?thesis by (simp add: extract_key_info_from_content_def)
qed

lemma first_events:
  assumes "event_words sws" and "CHR 0x60 \<notin> set end_text" and "distinct (event_names sws)"
  shows "streaming_events (extract_key_info_from_content (events_text sws end_text)) =
      take 15 (event_names sws)"
  by (simp add: streaming_events_of_text[OF assms(1,2)] first_seen_distinct[OF assms(3)])

lemma dotted_event_skipped:
  "scan False event_pattern (''`response.output_text.delta` '' @ rest) =
     scan False event_pattern rest"
  by (simp add: event_pattern_def ascii)

text \<open>
  C2. The lists of the record are distinct and capped, and the parameters example holds (next
  theorem). The streaming example does not hold for every token that starts with
  \<^verbatim>\<open>response.\<close>: the pattern takes word characters only after the first dot, so a token
  with a second dot, such as \<^verbatim>\<open>response.output_text.delta\<close>, is not harvested. In the
  text below, of 30 distinct tokens, the first has a second dot; the list holds the 15
  tokens that follow it, not the first 15 tokens.
\<close>

theorem streaming_events_skip_dotted_tokens:
  "streaming_events (extract_key_info_from_content
     ''`response.output_text.delta` `response.e02` `response.e03` `response.e04` `response.e05` `response.e06` `response.e07` `response.e08` `response.e09` `response.e10` `response.e11` `response.e12` `response.e13` `response.e14` `response.e15` `response.e16` `response.e17` `response.e18` `response.e19` `response.e20` `response.e21` `response.e22` `response.e23` `response.e24` `response.e25` `response.e26` `response.e27` `response.e28` `response.e29` `response.e30`'') \<noteq>
   [''response.output_text.delta'', ''response.e02'', ''response.e03'', ''response.e04'', ''response.e05'', ''response.e06'', ''response.e07'', ''response.e08'', ''response.e09'', ''response.e10'', ''response.e11'', ''response.e12'', ''response.e13'', ''response.e14'', ''response.e15'']"
proof -
  have t: "''`response.output_text.delta` `response.e02` `response.e03` `response.e04` `response.e05` `response.e06` `response.e07` `response.e08` `response.e09` `response.e10` `response.e11` `response.e12` `response.e13` `response.e14` `response.e15` `response.e16` `response.e17` `response.e18` `response.e19` `response.e20` `response.e21` `response.e22` `response.e23` `response.e24` `response.e25` `response.e26` `response.e27` `response.e28` `response.e29` `response.e30`'' =
      ''`response.output_text.delta` '' @ events_text [([], ''e02''), ('' '', ''e03''), ('' '', ''e04''), ('' '', ''e05''), ('' '', ''e06''), ('' '', ''e07''), ('' '', ''e08''), ('' '', ''e09''), ('' '', ''e10''), ('' '', ''e11''), ('' '', ''e12''), ('' '', ''e13''), ('' '', ''e14''), ('' '', ''e15''), ('' '', ''e16''), ('' '', ''e17''), ('' '', ''e18''), ('' '', ''e19''), ('' '', ''e20''), ('' '', ''e21''), ('' '', ''e22''), ('' '', ''e23''), ('' '', ''e24''), ('' '', ''e25''), ('' '', ''e26''), ('' '', ''e27''), ('' '', ''e28''), ('' '', ''e29''), ('' '', ''e30'')] []"
    by (simp add: events_text_def)
  have w: "event_words [([], ''e02''), ('' '', ''e03''), ('' '', ''e04''), ('' '', ''e05''), ('' '', ''e06''), ('' '', ''e07''), ('' '', ''e08''), ('' '', ''e09''), ('' '', ''e10''), ('' '', ''e11''), ('' '', ''e12''), ('' '', ''e13''), ('' '', ''e14''), ('' '', ''e15''), ('' '', ''e16''), ('' '', ''e17''), ('' '', ''e18''), ('' '', ''e19''), ('' '', ''e20''), ('' '', ''e21''), ('' '', ''e22''), ('' '', ''e23''), ('' '', ''e24''), ('' '', ''e25''), ('' '', ''e26''), ('' '', ''e27''), ('' '', ''e28''), ('' '', ''e29''), ('' '', ''e30'')]"
    by (simp add: event_words_def ascii)
  have "gather event_of False [event_pattern] (''`response.output_text.delta` '' @
      events_text [([], ''e02''), ('' '', ''e03''), ('' '', ''e04''), ('' '', ''e05''), ('' '', ''e06''), ('' '', ''e07''), ('' '', ''e08''), ('' '', ''e09''), ('' '', ''e10''), ('' '', ''e11''), ('' '', ''e12''), ('' '', ''e13''), ('' '', ''e14''), ('' '', ''e15''), ('' '', ''e16''), ('' '', ''e17''), ('' '', ''e18''), ('' '', ''e19''), ('' '', ''e20''), ('' '', ''e21''), ('' '', ''e22''), ('' '', ''e23''), ('' '', ''e24''), ('' '', ''e25''), ('' '', ''e26''), ('' '', ''e27''), ('' '', ''e28''), ('' '', ''e29''), ('' '', ''e30'')] []) = event_names [([], ''e02''), ('' '', ''e03''), ('' '', ''e04''), ('' '', ''e05''), ('' '', ''e06''), ('' '', ''e07''), ('' '', ''e08''), ('' '', ''e09''), ('' '', ''e10''), ('' '', ''e11''), ('' '', ''e12''), ('' '', ''e13''), ('' '', ''e14''), ('' '', ''e15''), ('' '', ''e16''), ('' '', ''e17''), ('' '', ''e18''), ('' '', ''e19''), ('' '', ''e20''), ('' '', ''e21''), ('' '', ''e22''), ('' '', ''e23''), ('' '', ''e24''), ('' '', ''e25''), ('' '', ''e26''), ('' '', ''e27''), ('' '', ''e28''), ('' '', ''e29''), ('' '', ''e30'')]"
    unfolding gather_def re_findall_def
    by (simp add: dotted_event_skipped del: append.simps)
       (simp add: findall_events[OF _ w, unfolded re_findall_def] map_filter_def event_of_def
          comp_def)
  then have "streaming_events (extract_key_info_from_content
     ''`response.output_text.delta` `response.e02` `response.e03` `response.e04` `response.e05` `response.e06` `response.e07` `response.e08` `response.e09` `response.e10` `response.e11` `response.e12` `response.e13` `response.e14` `response.e15` `response.e16` `response.e17` `response.e18` `response.e19` `response.e20` `response.e21` `response.e22` `response.e23` `response.e24` `response.e25` `response.e26` `response.e27` `response.e28` `response.e29` `response.e30`'') = [''response.e02'', ''response.e03'', ''response.e04'', ''response.e05'', ''response.e06'', ''response.e07'', ''response.e08'', ''response.e09'', ''response.e10'', ''response.e11'', ''response.e12'', ''response.e13'', ''response.e14'', ''response.e15'', ''response.e16'']"
    unfolding t by (simp add: key_info_fields first_seen_def event_names_def)
  then show ?thesis by simp
qed

text \<open>
  C2, amended. Each of the five lists of the record is the sequence of the candidates found
  in the text, each kept where it is first discovered, cut to the cap of the list (5, 10,
  20, 20, 15); so its elements are pairwise distinct and it is no longer than its cap. The
  text \<^verbatim>\<open>`foo` (string) ... `bar` (string) ... `foo` (string)\<close> gives the parameters
  \<^verbatim>\<open>["foo", "bar"]\<close>. A text with 30 distinct backtick-quoted tokens \<^verbatim>\<open>response.w\<close>,
  each \<open>w\<close> one or more word characters, and no other backtick, gives the first 15 of them
  as streaming events, in the order of the text.
\<close>

theorem key_info_lists:
  "(let ki = extract_key_info_from_content content in
      core_concepts ki = take 5 (first_seen (gather concept_of True concepts_patterns content)) \<and>
      endpoints ki = take 10 (first_seen (gather endpoint_of False [endpoint_re] content)) \<and>
      parameters ki = take 20 (first_seen (gather param_of True param_patterns content)) \<and>
      response_fields ki = take 20 (first_seen (gather field_of True field_patterns content)) \<and>
      streaming_events ki = take 15 (first_seen (gather event_of False [event_pattern] content)) \<and>
      distinct (core_concepts ki) \<and> length (core_concepts ki) \<le> 5 \<and>
      distinct (endpoints ki) \<and> length (endpoints ki) \<le> 10 \<and>
      distinct (parameters ki) \<and> length (parameters ki) \<le> 20 \<and>
      distinct (response_fields ki) \<and> length (response_fields ki) \<le> 20 \<and>
      distinct (streaming_events ki) \<and> length (streaming_events ki) \<le> 15) \<and>
   parameters (extract_key_info_from_content
      ''`foo` (string) ... `bar` (string) ... `foo` (string)'') = [''foo'', ''bar''] \<and>
   (event_words sws \<and> CHR 0x60 \<notin> set end_text \<and> distinct (event_names sws) \<and> length sws = 30 \<longrightarrow>
      streaming_events (extract_key_info_from_content (events_text sws end_text)) =
        take 15 (event_names sws) \<and>
      length (streaming_events (extract_key_info_from_content (events_text sws end_text))) = 15)"
proof -
  have a: "let ki = extract_key_info_from_content content in
      core_concepts ki = take 5 (first_seen (gather concept_of True concepts_patterns content)) \<and>
      endpoints ki = take 10 (first_seen (gather endpoint_of False [endpoint_re] content)) \<and>
      parameters ki = take 20 (first_seen (gather param_of True param_patterns content)) \<and>
      response_fields ki = take 20 (first_seen (gather field_of True field_patterns content)) \<and>
      streaming_events ki = take 15 (first_seen (gather event_of False [event_pattern] content)) \<and>
      distinct (core_concepts ki) \<and> length (core_concepts ki) \<le> 5 \<and>
      distinct (endpoints ki) \<and> length (endpoints ki) \<le> 10 \<and>
      distinct (parameters ki) \<and> length (parameters ki) \<le> 20 \<and>
      distinct (response_fields ki) \<and> length (response_fields ki) \<le> 20 \<and>
      distinct (streaming_events ki) \<and> length (streaming_events ki) \<le> 15"
    unfolding Let_def key_info_fields by (simp add: distinct_first_seen)
  have c: "event_words sws \<and> CHR 0x60 \<notin> set end_text \<and> distinct (event_names sws) \<and>
      length sws = 30 \<longrightarrow>
      streaming_events (extract_key_info_from_content (events_text sws end_text)) =
        take 15 (event_names sws) \<and>
      length (streaming_events (extract_key_info_from_content (events_text sws end_text))) = 15"
    by (simp add: first_events event_names_def)
  show ?thesis using a params_example c by blast
qed

theorem key_info_lists_witness:
  "event_words [('' '', ''e01''), ('' '', ''e02''), ('' '', ''e03''), ('' '', ''e04''), ('' '', ''e05''), ('' '', ''e06''), ('' '', ''e07''), ('' '', ''e08''), ('' '', ''e09''), ('' '', ''e10''), ('' '', ''e11''), ('' '', ''e12''), ('' '', ''e13''), ('' '', ''e14''), ('' '', ''e15''), ('' '', ''e16''), ('' '', ''e17''), ('' '', ''e18''), ('' '', ''e19''), ('' '', ''e20''), ('' '', ''e21''), ('' '', ''e22''), ('' '', ''e23''), ('' '', ''e24''), ('' '', ''e25''), ('' '', ''e26''), ('' '', ''e27''), ('' '', ''e28''), ('' '', ''e29''), ('' '', ''e30'')] \<and>
   CHR 0x60 \<notin> set '' and more.'' \<and>
   distinct (event_names [('' '', ''e01''), ('' '', ''e02''), ('' '', ''e03''), ('' '', ''e04''), ('' '', ''e05''), ('' '', ''e06''), ('' '', ''e07''), ('' '', ''e08''), ('' '', ''e09''), ('' '', ''e10''), ('' '', ''e11''), ('' '', ''e12''), ('' '', ''e13''), ('' '', ''e14''), ('' '', ''e15''), ('' '', ''e16''), ('' '', ''e17''), ('' '', ''e18''), ('' '', ''e19''), ('' '', ''e20''), ('' '', ''e21''), ('' '', ''e22''), ('' '', ''e23''), ('' '', ''e24''), ('' '', ''e25''), ('' '', ''e26''), ('' '', ''e27''), ('' '', ''e28''), ('' '', ''e29''), ('' '', ''e30'')]) \<and>
   length [('' '', ''e01''), ('' '', ''e02''), ('' '', ''e03''), ('' '', ''e04''), ('' '', ''e05''), ('' '', ''e06''), ('' '', ''e07''), ('' '', ''e08''), ('' '', ''e09''), ('' '', ''e10''), ('' '', ''e11''), ('' '', ''e12''), ('' '', ''e13''), ('' '', ''e14''), ('' '', ''e15''), ('' '', ''e16''), ('' '', ''e17''), ('' '', ''e18''), ('' '', ''e19''), ('' '', ''e20''), ('' '', ''e21''), ('' '', ''e22''), ('' '', ''e23''), ('' '', ''e24''), ('' '', ''e25''), ('' '', ''e26''), ('' '', ''e27''), ('' '', ''e28''), ('' '', ''e29''), ('' '', ''e30'')] = 30 \<and>
   streaming_events (extract_key_info_from_content (events_text [('' '', ''e01''), ('' '', ''e02''), ('' '', ''e03''), ('' '', ''e04''), ('' '', ''e05''), ('' '', ''e06''), ('' '', ''e07''), ('' '', ''e08''), ('' '', ''e09''), ('' '', ''e10''), ('' '', ''e11''), ('' '', ''e12''), ('' '', ''e13''), ('' '', ''e14''), ('' '', ''e15''), ('' '', ''e16''), ('' '', ''e17''), ('' '', ''e18''), ('' '', ''e19''), ('' '', ''e20''), ('' '', ''e21''), ('' '', ''e22''), ('' '', ''e23''), ('' '', ''e24''), ('' '', ''e25''), ('' '', ''e26''), ('' '', ''e27''), ('' '', ''e28''), ('' '', ''e29''), ('' '', ''e30'')] '' and more.'')) =
     [''response.e01'', ''response.e02'', ''response.e03'', ''response.e04'', ''response.e05'', ''response.e06'', ''response.e07'', ''response.e08'', ''response.e09'', ''response.e10'', ''response.e11'', ''response.e12'', ''response.e13'', ''response.e14'', ''response.e15'']"
proof -
  have h: "event_words [('' '', ''e01''), ('' '', ''e02''), ('' '', ''e03''), ('' '', ''e04''), ('' '', ''e05''), ('' '', ''e06''), ('' '', ''e07''), ('' '', ''e08''), ('' '', ''e09''), ('' '', ''e10''), ('' '', ''e11''), ('' '', ''e12''), ('' '', ''e13''), ('' '', ''e14''), ('' '', ''e15''), ('' '', ''e16''), ('' '', ''e17''), ('' '', ''e18''), ('' '', ''e19''), ('' '', ''e20''), ('' '', ''e21''), ('' '', ''e22''), ('' '', ''e23''), ('' '', ''e24''), ('' '', ''e25''), ('' '', ''e26''), ('' '', ''e27''), ('' '', ''e28''), ('' '', ''e29''), ('' '', ''e30'')] \<and>
     CHR 0x60 \<notin> set '' and more.'' \<and>
     distinct (event_names [('' '', ''e01''), ('' '', ''e02''), ('' '', ''e03''), ('' '', ''e04''), ('' '', ''e05''), ('' '', ''e06''), ('' '', ''e07''), ('' '', ''e08''), ('' '', ''e09''), ('' '', ''e10''), ('' '', ''e11''), ('' '', ''e12''), ('' '', ''e13''), ('' '', ''e14''), ('' '', ''e15''), ('' '', ''e16''), ('' '', ''e17''), ('' '', ''e18''), ('' '', ''e19''), ('' '', ''e20''), ('' '', ''e21''), ('' '', ''e22''), ('' '', ''e23''), ('' '', ''e24''), ('' '', ''e25''), ('' '', ''e26''), ('' '', ''e27''), ('' '', ''e28''), ('' '', ''e29''), ('' '', ''e30'')]) \<and>
     length [('' '', ''e01''), ('' '', ''e02''), ('' '', ''e03''), ('' '', ''e04''), ('' '', ''e05''), ('' '', ''e06''), ('' '', ''e07''), ('' '', ''e08''), ('' '', ''e09''), ('' '', ''e10''), ('' '', ''e11''), ('' '', ''e12''), ('' '', ''e13''), ('' '', ''e14''), ('' '', ''e15''), ('' '', ''e16''), ('' '', ''e17''), ('' '', ''e18''), ('' '', ''e19''), ('' '', ''e20''), ('' '', ''e21''), ('' '', ''e22''), ('' '', ''e23''), ('' '', ''e24''), ('' '', ''e25''), ('' '', ''e26''), ('' '', ''e27''), ('' '', ''e28''), ('' '', ''e29''), ('' '', ''e30'')] = 30"
    by (simp add: event_words_def event_names_def ascii)
  then show ?thesis
    using key_info_lists [of _ "[('' '', ''e01''), ('' '', ''e02''), ('' '', ''e03''), ('' '', ''e04''), ('' '', ''e05''), ('' '', ''e06''), ('' '', ''e07''), ('' '', ''e08''), ('' '', ''e09''), ('' '', ''e10''), ('' '', ''e11''), ('' '', ''e12''), ('' '', ''e13''), ('' '', ''e14''), ('' '', ''e15''), ('' '', ''e16''), ('' '', ''e17''), ('' '', ''e18''), ('' '', ''e19''), ('' '', ''e20''), ('' '', ''e21''), ('' '', ''e22''), ('' '', ''e23''), ('' '', ''e24''), ('' '', ''e25''), ('' '', ''e26''), ('' '', ''e27''), ('' '', ''e28''), ('' '', ''e29''), ('' '', ''e30'')]" "'' and more.''"] by (simp add: event_names_def)
qed


section \<open>Properties of the Text Extractor\<close>

lemma startswith_append: "startswith a p \<Longrightarrow> startswith (a @ b) p"
  by (induction a p rule: startswith.induct) auto

lemma contains_appendI1: "contains p a \<Longrightarrow> contains p (a @ b)"
proof (induction a)
  case Nil
  then show ?case by (cases b) auto
next
  case (Cons x a)
  then show ?case using startswith_append[of "x # a" p b] by auto
qed

lemma contains_appendI2: "contains p b \<Longrightarrow> contains p (a @ b)"
  by (induction a) auto

lemma contains_join_sp: "v \<in> set ts \<Longrightarrow> contains p v \<Longrightarrow> contains p (join_sp ts)"
proof (induction ts rule: join_sp.induct)
  case 1
  then show ?case by simp
next
  case (2 l)
  then show ?case by simp
next
  case (3 l u us)
  show ?case
  proof (cases "v = l")
    case True
    then show ?thesis using 3(3) by (simp add: contains_appendI1)
  next
    case False
    then have "contains p (join_sp (u # us))" using 3 by simp
    then have "contains p (l @ CHR '' '' # join_sp (u # us))"
      using contains_appendI2[of p "CHR '' '' # join_sp (u # us)" l] by simp
    then show ?thesis by simp
  qed
qed

lemma class_hint_Some: "class_hint (Some v) \<longleftrightarrow>
   contains ''content'' v \<or> contains ''main'' v \<or> contains ''doc'' v \<or> contains ''page'' v"
  by (cases v) (auto simp: class_hint_def)

lemma class_matches_hint: "class_matches class_hint n \<longleftrightarrow>
   (case class_attr n of None \<Rightarrow> False | Some v \<Rightarrow> class_hint (Some v))"
proof (cases n)
  case (Element t c ks)
  show ?thesis
  proof (cases c)
    case None
    then show ?thesis using Element by (simp add: class_hint_def)
  next
    case (Some ts)
    have "list_ex (\<lambda>v. class_hint (Some v)) ts \<Longrightarrow> class_hint (Some (join_sp ts))"
      unfolding class_hint_Some list_ex_iff using contains_join_sp by blast
    then show ?thesis using Element Some by auto
  qed
next
  case (TextNode s)
  then show ?thesis by simp
qed

text \<open>
  C6. The main-content extraction selects exactly the elements named \<^verbatim>\<open>main\<close>,
  \<^verbatim>\<open>article\<close> or \<^verbatim>\<open>div\<close> whose class attribute contains \<^verbatim>\<open>content\<close>,
  \<^verbatim>\<open>main\<close>, \<^verbatim>\<open>doc\<close> or \<^verbatim>\<open>page\<close> as a substring, upper and lower case
  distinguished; an element of class \<^verbatim>\<open>main-content\<close> is one. Only when there is none
  does it fall back to the body element, or to the whole tree when there is no body.
\<close>

theorem content_areas_selection:
  "find_all [''main'', ''article'', ''div''] class_hint soup = filter hinted (descendants soup) \<and>
   content_areas soup =
     (if filter hinted (descendants soup) = []
      then (case body soup of Some b \<Rightarrow> [b] | None \<Rightarrow> [soup])
      else filter hinted (descendants soup)) \<and>
   hinted (Element ''div'' (Some [''main-content'']) ks) \<and>
   \<not> hinted (Element ''div'' (Some [''Main'', ''DOC'']) ks) \<and>
   \<not> hinted (Element ''section'' (Some [''content'']) ks) \<and>
   \<not> hinted (Element ''div'' None ks)"
proof -
  have h: "\<And>n. (has_tag [''main'', ''article'', ''div''] n \<and> class_matches class_hint n) = hinted n"
    unfolding class_matches_hint hinted_def class_hint_Some by (simp split: option.splits)
  have f: "find_all [''main'', ''article'', ''div''] class_hint soup = filter hinted (descendants soup)"
    unfolding find_all_def h ..
  have c: "content_areas soup =
     (if filter hinted (descendants soup) = []
      then (case body soup of Some b \<Rightarrow> [b] | None \<Rightarrow> [soup])
      else filter hinted (descendants soup))"
    unfolding content_areas_def f Let_def ..
  have e: "hinted (Element ''div'' (Some [''main-content'']) ks)"
    "\<not> hinted (Element ''div'' (Some [''Main'', ''DOC'']) ks)"
    "\<not> hinted (Element ''section'' (Some [''content'']) ks)"
    "\<not> hinted (Element ''div'' None ks)"
    by (simp_all add: hinted_def)
  show ?thesis using f c e by blast
qed

end
